theory Spec2Isabelle
  imports Complex_Main "HOL-Library.Product_Lexorder"
begin

section \<open>Time and the record store's answers\<close>

text \<open>
  Instants are milliseconds since the epoch (\<open>Date.getTime()\<close>), a calendar date
  \<open>YYYY-MM-DD\<close> is its day number since the epoch. The screens obtain a date string with
  \<open>toISOString().split('T')[0]\<close> (the UTC date of an instant) and read one back with
  \<open>new Date(dateString)\<close> (UTC midnight of that date). The clock readings of one run of a
  function are one instant. Numbers of the health records are reals, points and progress of
  missions integers.
\<close>

definition msPerDay :: int where
  "msPerDay = 86400000"

definition toISODate :: "int \<Rightarrow> int" where
  "toISODate t = t div msPerDay"

definition parseDate :: "int \<Rightarrow> int" where
  "parseDate d = d * msPerDay"

text \<open>
  The local fields of a \<open>Date\<close> depend on the time zone of the device. A zone gives the
  offset of local time from UTC in milliseconds, as the language specifies it: for a UTC
  instant (\<open>LocalTZA(t, true)\<close>) and for a local time (\<open>LocalTZA(t, false)\<close>, which reads a
  local time that a clock change skips or repeats with the offset before the change).
  \<open>localTime\<close> is \<open>LocalTime(t)\<close> and \<open>utcOf\<close> is \<open>UTC(t)\<close>.
\<close>

record timeZone =
  offsetAtUTC :: "int \<Rightarrow> int"
  offsetAtLocal :: "int \<Rightarrow> int"

definition localTime :: "timeZone \<Rightarrow> int \<Rightarrow> int" where
  "localTime z t = t + offsetAtUTC z t"

definition utcOf :: "timeZone \<Rightarrow> int \<Rightarrow> int" where
  "utcOf z local = local - offsetAtLocal z local"

text \<open>
  \<open>date.setDate(date.getDate() - i)\<close>: the local calendar day moves back by \<open>i\<close>, the local
  time of day stays, and the result is read back as an instant.
\<close>

definition daysBefore :: "timeZone \<Rightarrow> int \<Rightarrow> nat \<Rightarrow> int" where
  "daysBefore z t i = utcOf z (localTime z t - int i * msPerDay)"

text \<open>
  \<open>new Date(now.getFullYear(), now.getMonth(), now.getDate() + k)\<close>: local midnight of the
  local calendar day \<open>k\<close> days after the local day of \<open>now\<close>.
\<close>

definition localMidnight :: "timeZone \<Rightarrow> int \<Rightarrow> int \<Rightarrow> int" where
  "localMidnight z t k = utcOf z ((localTime z t div msPerDay + k) * msPerDay)"

text \<open>The wrappers of \<open>api/supabase.ts\<close> return \<open>{ data, error }\<close>.\<close>

record 'a response =
  data :: "'a list option"
  error :: "string option"

text \<open>\<open>data?.filter(p) || []\<close>: the rows that satisfy \<open>p\<close>, none when \<open>data\<close> is null.\<close>

definition filterOrEmpty :: "('a \<Rightarrow> bool) \<Rightarrow> 'a list option \<Rightarrow> 'a list" where
  "filterOrEmpty p d = (case d of None \<Rightarrow> [] | Some xs \<Rightarrow> filter p xs)"

text \<open>\<open>Math.round\<close>: the nearest integer, a half rounded up.\<close>

definition math_round :: "real \<Rightarrow> int" where
  "math_round x = \<lfloor>x + 1 / 2\<rfloor>"

section \<open>Home screen: derived health metrics\<close>

record Food =
  foodUserId :: string
  name :: string
  calories :: real
  protein :: real
  fat :: real
  carbs :: real
  fiber :: real
  foodDate :: int

record Exercise =
  exerciseUserId :: string
  duration :: real
  caloriesBurned :: real
  exerciseDate :: int

record WeightRecord =
  weightUserId :: string
  weight :: real
  weightDate :: int

datatype calorie_status = Surplus | Deficit

datatype trend = Increasing | Decreasing | Stagnant

record home =
  caloriesIn :: real
  caloriesOut :: real
  netCalories :: real
  calorieStatus :: calorie_status
  weeklyIn :: "real list"
  weeklyOut :: "real list"
  macroProtein :: int
  macroFat :: int
  macroCarbs :: int
  weightTrend :: trend

text \<open>The \<open>useState\<close> defaults of the home screen.\<close>

definition initialHome :: home where
  "initialHome = \<lparr>caloriesIn = 0, caloriesOut = 0, netCalories = 0, calorieStatus = Deficit,
     weeklyIn = [0, 0, 0, 0, 0, 0, 0], weeklyOut = [0, 0, 0, 0, 0, 0, 0],
     macroProtein = 0, macroFat = 0, macroCarbs = 0, weightTrend = Stagnant\<rparr>"

definition todayFoods :: "int \<Rightarrow> Food list option \<Rightarrow> Food list" where
  "todayFoods now foodData = filterOrEmpty (\<lambda>food. foodDate food = toISODate now) foodData"

definition todayExercises :: "int \<Rightarrow> Exercise list option \<Rightarrow> Exercise list" where
  "todayExercises now exerciseData =
     filterOrEmpty (\<lambda>exercise. exerciseDate exercise = toISODate now) exerciseData"

definition totalCaloriesIn :: "int \<Rightarrow> Food list option \<Rightarrow> real" where
  "totalCaloriesIn now foodData =
     foldl (\<lambda>sum food. sum + calories food) 0 (todayFoods now foodData)"

definition totalCaloriesOut :: "int \<Rightarrow> Exercise list option \<Rightarrow> real" where
  "totalCaloriesOut now exerciseData =
     foldl (\<lambda>sum exercise. sum + caloriesBurned exercise) 0 (todayExercises now exerciseData)"

text \<open>\<open>Array.from({ length: 7 }, (_, i) => ...).reverse()\<close>.\<close>

definition last7Days :: "timeZone \<Rightarrow> int \<Rightarrow> int list" where
  "last7Days z now = rev (map (\<lambda>i. toISODate (daysBefore z now i)) [0..<7])"

definition weeklyInSeries :: "timeZone \<Rightarrow> int \<Rightarrow> Food list option \<Rightarrow> real list" where
  "weeklyInSeries z now foodData =
     map (\<lambda>date. foldl (\<lambda>sum food. sum + calories food) 0
                   (filterOrEmpty (\<lambda>food. foodDate food = date) foodData))
         (last7Days z now)"

definition weeklyOutSeries ::
  "timeZone \<Rightarrow> int \<Rightarrow> Exercise list option \<Rightarrow> real list" where
  "weeklyOutSeries z now exerciseData =
     map (\<lambda>date. foldl (\<lambda>sum exercise. sum + caloriesBurned exercise) 0
                   (filterOrEmpty (\<lambda>exercise. exerciseDate exercise = date) exerciseData))
         (last7Days z now)"

text \<open>The filter of the macro averages: \<open>foodDate >= sevenDaysAgo\<close>.\<close>

definition last7DaysFoods :: "timeZone \<Rightarrow> int \<Rightarrow> Food list option \<Rightarrow> Food list" where
  "last7DaysFoods z now foodData =
     (let sevenDaysAgo = daysBefore z now 7
      in filterOrEmpty (\<lambda>food. sevenDaysAgo \<le> parseDate (foodDate food)) foodData)"

definition daysCount :: "timeZone \<Rightarrow> int \<Rightarrow> Food list option \<Rightarrow> real" where
  "daysCount z now foodData = max 1 (if 0 < length (last7DaysFoods z now foodData) then 7 else 0)"

definition totalProtein :: "timeZone \<Rightarrow> int \<Rightarrow> Food list option \<Rightarrow> real" where
  "totalProtein z now foodData =
     foldl (\<lambda>sum food. sum + protein food) 0 (last7DaysFoods z now foodData)"

definition totalFat :: "timeZone \<Rightarrow> int \<Rightarrow> Food list option \<Rightarrow> real" where
  "totalFat z now foodData =
     foldl (\<lambda>sum food. sum + fat food) 0 (last7DaysFoods z now foodData)"

definition totalCarbs :: "timeZone \<Rightarrow> int \<Rightarrow> Food list option \<Rightarrow> real" where
  "totalCarbs z now foodData =
     foldl (\<lambda>sum food. sum + carbs food) 0 (last7DaysFoods z now foodData)"

text \<open>
  \<open>[...weightData].sort((a, b) => new Date(b.date).getTime() - new Date(a.date).getTime())\<close>:
  a stable sort, newest first.
\<close>

definition sortNewestFirst :: "WeightRecord list \<Rightarrow> WeightRecord list" where
  "sortNewestFirst weightData = sort_key (\<lambda>r. - weightDate r) weightData"

text \<open>The trend branch of \<open>loadDashboardData\<close>; the state keeps its value when it is skipped.\<close>

definition homeTrend :: "WeightRecord list option \<Rightarrow> trend \<Rightarrow> trend" where
  "homeTrend weightData old =
     (case weightData of
        None \<Rightarrow> old
      | Some ws \<Rightarrow>
          if 2 \<le> length ws then
            (case sortNewestFirst ws of
               latest # previous # _ \<Rightarrow>
                 if weight latest < weight previous then Decreasing
                 else if weight previous < weight latest then Increasing
                 else Stagnant
             | _ \<Rightarrow> old)
          else old)"

text \<open>
  \<open>loadDashboardData\<close>, up to the weight trend, in the time zone \<open>z\<close> of the device at the
  instant \<open>now\<close>. A fetch error is thrown and caught at the end of the function, which only
  logs it: the state set so far stays.
\<close>

definition loadDashboardData ::
  "timeZone \<Rightarrow> int \<Rightarrow> Food response \<Rightarrow> Exercise response \<Rightarrow> WeightRecord response \<Rightarrow> home
     \<Rightarrow> home" where
  "loadDashboardData z now foodR exerciseR weightR h =
     (if error foodR \<noteq> None then h
      else if error exerciseR \<noteq> None then h
      else
        let foodData = data foodR;
            exerciseData = data exerciseR;
            h1 = h\<lparr>caloriesIn := totalCaloriesIn now foodData,
                   caloriesOut := totalCaloriesOut now exerciseData,
                   netCalories := totalCaloriesIn now foodData - totalCaloriesOut now exerciseData,
                   calorieStatus :=
                     (if totalCaloriesOut now exerciseData < totalCaloriesIn now foodData
                      then Surplus else Deficit),
                   weeklyIn := weeklyInSeries z now foodData,
                   weeklyOut := weeklyOutSeries z now exerciseData,
                   macroProtein :=
                     math_round (totalProtein z now foodData / daysCount z now foodData),
                   macroFat := math_round (totalFat z now foodData / daysCount z now foodData),
                   macroCarbs :=
                     math_round (totalCarbs z now foodData / daysCount z now foodData)\<rparr>
        in if error weightR \<noteq> None then h1
           else h1\<lparr>weightTrend := homeTrend (data weightR) (weightTrend h1)\<rparr>)"

text \<open>A successful fetch of the given rows.\<close>

definition rows :: "'a list \<Rightarrow> 'a response" where
  "rows xs = \<lparr>data = Some xs, error = None\<rparr>"

section \<open>Weight tracking screen: the trend after \<open>loadData\<close>\<close>

text \<open>
  The trend state of the weight tracking screen is nullable and starts as \<open>null\<close>; the
  branch for fewer than two records sets the koala message only.
\<close>

definition initialTrackingTrend :: "trend option" where
  "initialTrackingTrend = None"

definition trackingTrend :: "WeightRecord list \<Rightarrow> trend option \<Rightarrow> trend option" where
  "trackingTrend weightData old =
     (let sortedRecords = sortNewestFirst weightData
      in if 2 \<le> length sortedRecords then
           (case sortedRecords of
              latest # previous # _ \<Rightarrow>
                if weight latest < weight previous then Some Decreasing
                else if weight previous < weight latest then Some Increasing
                else Some Stagnant
            | _ \<Rightarrow> old)
         else old)"

section \<open>Missions screen: the record store\<close>

text \<open>
  A mission is built in three steps, as in the source: the template literal, the object
  the generator sends to the store, and the row the store keeps (which adds the id).
  Titles and descriptions are the translation keys passed to \<open>i18n.t\<close>. Ids are issued
  by the store; the model numbers them.
\<close>

datatype mission_type = Daily | Weekly | Special

record Template =
  title :: string
  description :: string
  mtype :: mission_type
  points :: int
  target :: int
  progress :: int
  completed :: bool

record NewMission = Template +
  missionUserId :: string
  expiresAt :: int
  createdAt :: int

record Mission = NewMission +
  mission_id :: nat

record User =
  user_id :: string
  user_points :: "int option"

text \<open>
  The surroundings of the missions screen: the clock and the time zone of the device, and
  the remote service with the signed-in user, the two tables the missions screen touches, and the outcomes of the requests still to come (\<open>True\<close>: the
  request fails; when the list is used up every request succeeds). The service is not part
  of the repository; the model gives it the plain meaning of its interface: a request
  that fails changes nothing, a select returns the rows whose column has the value, an
  insert appends the row under an id that no row has, an update rewrites the given fields
  of the rows with the id.
\<close>

record world =
  clock :: int
  zone :: timeZone
  authUser :: "string option"
  users :: "User list"
  missionsTbl :: "Mission list"
  faults :: "bool list"

definition request :: "world \<Rightarrow> bool \<times> world" where
  "request w = (case faults w of [] \<Rightarrow> (False, w) | f # fs \<Rightarrow> (f, w\<lparr>faults := fs\<rparr>))"

definition failed :: "'a response" where
  "failed = \<lparr>data = None, error = Some ''request failed''\<rparr>"

text \<open>
  \<open>getCurrentUser\<close>: the error and \<open>data.user\<close> (its id). Without a session the client
  answers with no user and an error.
\<close>

definition getCurrentUser :: "world \<Rightarrow> (string option \<times> string option) \<times> world" where
  "getCurrentUser w =
     (let (fails, w') = request w
      in if fails then ((Some ''request failed'', None), w')
         else (case authUser w' of
                 None \<Rightarrow> ((Some ''Auth session missing!'', None), w')
               | Some uid \<Rightarrow> ((None, Some uid), w')))"

text \<open>\<open>getData('users', 'id', uid)\<close>, \<open>getData('missions', 'userId', uid)\<close> and
  \<open>getData('badges', 'userId', uid)\<close> (of the badges only the outcome matters here).\<close>

definition getUsers :: "string \<Rightarrow> world \<Rightarrow> User response \<times> world" where
  "getUsers uid w =
     (let (fails, w') = request w
      in if fails then (failed, w') else (rows (filter (\<lambda>u. user_id u = uid) (users w')), w'))"

definition getMissions :: "string \<Rightarrow> world \<Rightarrow> Mission response \<times> world" where
  "getMissions uid w =
     (let (fails, w') = request w
      in if fails then (failed, w')
         else (rows (filter (\<lambda>m. missionUserId m = uid) (missionsTbl w')), w'))"

definition getBadges :: "string \<Rightarrow> world \<Rightarrow> unit response \<times> world" where
  "getBadges uid w =
     (let (fails, w') = request w in if fails then (failed, w') else (rows [], w'))"

fun maxId :: "Mission list \<Rightarrow> nat" where
  "maxId [] = 0"
| "maxId (m # ms) = max (mission_id m) (maxId ms)"

definition freshId :: "Mission list \<Rightarrow> nat" where
  "freshId ms = Suc (maxId ms)"

definition stored :: "nat \<Rightarrow> NewMission \<Rightarrow> Mission" where
  "stored i m =
     \<lparr>title = title m, description = description m, mtype = mtype m, points = points m,
      target = target m, progress = progress m, completed = completed m,
      missionUserId = missionUserId m, expiresAt = expiresAt m, createdAt = createdAt m,
      mission_id = i\<rparr>"

text \<open>\<open>insertData('missions', mission)\<close>: the error, and the table with the new row.\<close>

definition insertMission :: "NewMission \<Rightarrow> world \<Rightarrow> string option \<times> world" where
  "insertMission m w =
     (let (fails, w') = request w
      in if fails then (Some ''request failed'', w')
         else (None, w'\<lparr>missionsTbl := missionsTbl w' @ [stored (freshId (missionsTbl w')) m]\<rparr>))"

text \<open>\<open>updateData('missions', missionId, { progress, completed })\<close>.\<close>

definition updateMission :: "nat \<Rightarrow> int \<Rightarrow> bool \<Rightarrow> world \<Rightarrow> string option \<times> world" where
  "updateMission missionId newProgress isCompleted w =
     (let (fails, w') = request w
      in if fails then (Some ''request failed'', w')
         else (None, w'\<lparr>missionsTbl :=
                 map (\<lambda>m. if mission_id m = missionId
                           then m\<lparr>progress := newProgress, completed := isCompleted\<rparr> else m)
                     (missionsTbl w')\<rparr>))"

text \<open>\<open>updateData('users', userId, { points })\<close>.\<close>

definition updateUserPoints :: "string \<Rightarrow> int \<Rightarrow> world \<Rightarrow> string option \<times> world" where
  "updateUserPoints uid newPoints w =
     (let (fails, w') = request w
      in if fails then (Some ''request failed'', w')
         else (None, w'\<lparr>users :=
                 map (\<lambda>u. if user_id u = uid then u\<lparr>user_points := Some newPoints\<rparr> else u)
                     (users w')\<rparr>))"

section \<open>Missions screen: the mission engine\<close>

datatype alert = LoadDataError | UpdateProgressError | MissionCompleted int

record screen =
  userId :: "string option"
  missions :: "Mission list"
  userPoints :: int
  alerts :: "alert list"

definition initialScreen :: screen where
  "initialScreen = \<lparr>userId = None, missions = [], userPoints = 0, alerts = []\<rparr>"

text \<open>\<open>new Date(now.getFullYear(), now.getMonth(), now.getDate())\<close>: local midnight.\<close>

definition startOfLocalDay :: "world \<Rightarrow> int" where
  "startOfLocalDay w = localMidnight (zone w) (clock w) 0"


definition dailyMissionTemplates :: "Template list" where
  "dailyMissionTemplates =
     [\<lparr>title = ''logFoodTwice'', description = ''logFoodTwiceDesc'', mtype = Daily,
       points = 10, target = 2, progress = 0, completed = False\<rparr>,
      \<lparr>title = ''logExerciseOnce'', description = ''logExerciseOnceDesc'', mtype = Daily,
       points = 15, target = 1, progress = 0, completed = False\<rparr>,
      \<lparr>title = ''consumeFiber'', description = ''consumeFiberDesc'', mtype = Daily,
       points = 20, target = 25, progress = 0, completed = False\<rparr>]"

definition weeklyMissionTemplates :: "Template list" where
  "weeklyMissionTemplates =
     [\<lparr>title = ''burnCalories'', description = ''burnCaloriesDesc'', mtype = Weekly,
       points = 50, target = 1000, progress = 0, completed = False\<rparr>,
      \<lparr>title = ''noFriedFood'', description = ''noFriedFoodDesc'', mtype = Weekly,
       points = 40, target = 3, progress = 0, completed = False\<rparr>,
      \<lparr>title = ''proteinIntake'', description = ''proteinIntakeDesc'', mtype = Weekly,
       points = 45, target = 50, progress = 0, completed = False\<rparr>]"

text \<open>The object literal built in the body of the generator's loop.\<close>

definition missionOf :: "string \<Rightarrow> int \<Rightarrow> int \<Rightarrow> Template \<Rightarrow> NewMission" where
  "missionOf uid expires created template =
     \<lparr>title = title template, description = description template, mtype = mtype template,
      points = points template, target = target template, progress = progress template,
      completed = completed template,
      missionUserId = uid, expiresAt = expires, createdAt = created\<rparr>"

text \<open>
  The generators compute the expiry (\<open>new Date(y, m, d + 1)\<close> for the daily missions,
  \<open>new Date(y, m, d + 7)\<close> for the weekly ones: local midnight of the next local day, of the
  seventh local day from now), insert one row per template, discarding what \<open>insertData\<close>
  returns, and then reload the screen. The reload is the parameter \<open>reload\<close>: it is \<open>loadData\<close>, defined
  below by recursion on a bound for the depth of nested reloads. Nothing in the body of
  the \<open>try\<close> throws (the wrappers return their errors), so the \<open>catch\<close> has no branch here.
\<close>

definition generateDailyMissions ::
  "(world \<Rightarrow> screen \<Rightarrow> (world \<times> screen) option) \<Rightarrow> string \<Rightarrow> world \<Rightarrow> screen
     \<Rightarrow> (world \<times> screen) option" where
  "generateDailyMissions reload uid w s =
     (let tomorrow = localMidnight (zone w) (clock w) 1;
          w' = fold (\<lambda>template v. snd (insertMission (missionOf uid tomorrow (clock w) template) v))
                 dailyMissionTemplates w
      in reload w' s)"

definition generateWeeklyMissions ::
  "(world \<Rightarrow> screen \<Rightarrow> (world \<times> screen) option) \<Rightarrow> string \<Rightarrow> world \<Rightarrow> screen
     \<Rightarrow> (world \<times> screen) option" where
  "generateWeeklyMissions reload uid w s =
     (let nextWeek = localMidnight (zone w) (clock w) 7;
          w' = fold (\<lambda>template v. snd (insertMission (missionOf uid nextWeek (clock w) template) v))
                 weeklyMissionTemplates w
      in reload w' s)"

definition checkAndGenerateMissions ::
  "(world \<Rightarrow> screen \<Rightarrow> (world \<times> screen) option) \<Rightarrow> string \<Rightarrow> Mission list \<Rightarrow> world \<Rightarrow> screen
     \<Rightarrow> (world \<times> screen) option" where
  "checkAndGenerateMissions reload uid currentMissions w s =
     (let today = startOfLocalDay w;
          dailyMissions =
            filter (\<lambda>mission. mtype mission = Daily \<and> today \<le> expiresAt mission) currentMissions;
          weeklyMissions =
            filter (\<lambda>mission. mtype mission = Weekly \<and> today \<le> expiresAt mission) currentMissions
      in case (if length dailyMissions = 0 then generateDailyMissions reload uid w s
               else Some (w, s)) of
           None \<Rightarrow> None
         | Some (w1, s1) \<Rightarrow>
             if length weeklyMissions = 0 then generateWeeklyMissions reload uid w1 s1
             else Some (w1, s1))"

text \<open>The comparator of \<open>loadData\<close>: by type, then incomplete first, then soonest expiry;
  the sort is stable.\<close>

definition typeOrder :: "mission_type \<Rightarrow> nat" where
  "typeOrder t = (case t of Daily \<Rightarrow> 0 | Weekly \<Rightarrow> 1 | Special \<Rightarrow> 2)"

definition sortMissions :: "Mission list \<Rightarrow> Mission list" where
  "sortMissions missionsData =
     sort_key (\<lambda>m. (typeOrder (mtype m), if completed m then 1 else (0::nat), expiresAt m))
       missionsData"

text \<open>\<open>userData[0].points || 0\<close>.\<close>

definition pointsOrZero :: "User \<Rightarrow> int" where
  "pointsOrZero u = (case user_points u of None \<Rightarrow> 0 | Some p \<Rightarrow> p)"

definition alert :: "alert \<Rightarrow> screen \<Rightarrow> screen" where
  "alert a s = s\<lparr>alerts := alerts s @ [a]\<rparr>"

text \<open>
  \<open>loadData\<close>. Every error thrown inside is caught at its end and shown as an alert. The
  first argument bounds the depth of nested reloads; \<open>None\<close> means the bound was reached.
\<close>

primrec loadData :: "nat \<Rightarrow> world \<Rightarrow> screen \<Rightarrow> (world \<times> screen) option" where
  "loadData 0 = (\<lambda>w s. None)"
| "loadData (Suc n) = (\<lambda>w s.
     let ((authError, user), w1) = getCurrentUser w
     in if authError \<noteq> None then Some (w1, alert LoadDataError s)
        else
          (case user of
             None \<Rightarrow> Some (w1, s)
           | Some uid \<Rightarrow>
               (let s1 = s\<lparr>userId := Some uid\<rparr>;
                    (userR, w2) = getUsers uid w1
                in if error userR \<noteq> None then Some (w2, alert LoadDataError s1)
                   else
                     (let s2 = (case data userR of
                                  Some (u # _) \<Rightarrow> s1\<lparr>userPoints := pointsOrZero u\<rparr>
                                | _ \<Rightarrow> s1);
                          (missionsR, w3) = getMissions uid w2
                      in if error missionsR \<noteq> None then Some (w3, alert LoadDataError s2)
                         else
                           (case (case data missionsR of
                                    None \<Rightarrow> Some (w3, s2)
                                  | Some missionsData \<Rightarrow>
                                      (let sortedMissions = sortMissions missionsData
                                       in checkAndGenerateMissions (loadData n) uid sortedMissions
                                            w3 (s2\<lparr>missions := sortedMissions\<rparr>))) of
                              None \<Rightarrow> None
                            | Some (w4, s4) \<Rightarrow>
                                (let (badgesR, w5) = getBadges uid w4
                                 in if error badgesR \<noteq> None
                                    then Some (w5, alert LoadDataError s4)
                                    else Some (w5, s4)))))))"

text \<open>\<open>updateMissionProgress\<close>; \<open>if (userId)\<close> holds for a non-empty string.\<close>

definition updateMissionProgress ::
  "(world \<Rightarrow> screen \<Rightarrow> (world \<times> screen) option) \<Rightarrow> nat \<Rightarrow> int \<Rightarrow> world \<Rightarrow> screen
     \<Rightarrow> (world \<times> screen) option" where
  "updateMissionProgress reload missionId newProgress w s =
     (case find (\<lambda>m. mission_id m = missionId) (missions s) of
        None \<Rightarrow> Some (w, s)
      | Some mission \<Rightarrow>
          let isCompleted = target mission \<le> newProgress;
              (updateError, w1) = updateMission missionId newProgress isCompleted w
          in if updateError \<noteq> None then Some (w1, alert UpdateProgressError s)
             else if isCompleted \<and> \<not> completed mission then
               (let newPoints = userPoints s + points mission
                in case userId s of
                     None \<Rightarrow> reload w1 s
                   | Some uid \<Rightarrow>
                       (if uid = [] then reload w1 s
                        else
                          (let (_, w2) = updateUserPoints uid newPoints w1
                           in reload w2
                                (alert (MissionCompleted (points mission))
                                   (s\<lparr>userPoints := newPoints\<rparr>)))))
             else reload w1 s)"

text \<open>\<open>renderMissionItem\<close>: the progress shown.\<close>

definition renderedProgress :: "Mission \<Rightarrow> int" where
  "renderedProgress item = min (progress item) (target item)"

section \<open>Auxiliary notions and sample data\<close>

text \<open>
  Time zones: a zone with one offset at all times, and New York around its clock change of
  10 March 2024 (UTC-5 until 07:00 UTC, which is 02:00 local time, and UTC-4 from then on;
  the local times before 03:00 of that day are read with the offset before the change).
\<close>

definition fixedOffset :: "int \<Rightarrow> timeZone" where
  "fixedOffset k = \<lparr>offsetAtUTC = (\<lambda>t. k), offsetAtLocal = (\<lambda>local. k)\<rparr>"

definition newYorkMarch2024 :: timeZone where
  "newYorkMarch2024 =
     \<lparr>offsetAtUTC = (\<lambda>t. if t < 1710054000000 then - 18000000 else - 14400000),
      offsetAtLocal = (\<lambda>local. if local < 1710039600000 then - 18000000 else - 14400000)\<rparr>"

text \<open>
  \<open>sameOffset z t i\<close>: the offset that the zone applies to the local time \<open>i\<close> calendar days
  before \<open>t\<close> is the offset in force at \<open>t\<close> (no clock change in between, or changes that
  cancel). \<open>offsetsWithinADay z\<close>: no two offsets of the zone differ by more than a day.
\<close>

definition sameOffset :: "timeZone \<Rightarrow> int \<Rightarrow> nat \<Rightarrow> bool" where
  "sameOffset z t i \<longleftrightarrow> offsetAtLocal z (localTime z t - int i * msPerDay) = offsetAtUTC z t"

definition offsetsWithinADay :: "timeZone \<Rightarrow> bool" where
  "offsetsWithinADay z \<longleftrightarrow> (\<forall>a b. offsetAtLocal z a - offsetAtLocal z b \<le> msPerDay)"


text \<open>
  Notions used to state the claims on the mission engine: a world in which every request
  succeeds, a user with an unexpired mission of a type, the screen state that a load leaves,
  the rows a sequence of inserts appends, and a world reached from another by appending
  rows with new ids for a user.
\<close>

definition quiet :: "world \<Rightarrow> bool" where
  "quiet w \<longleftrightarrow> faults w = []"

definition hasActive :: "mission_type \<Rightarrow> string \<Rightarrow> world \<Rightarrow> bool" where
  "hasActive ty uid w \<longleftrightarrow>
     (\<exists>m\<in>set (missionsTbl w). missionUserId m = uid \<and> mtype m = ty \<and> startOfLocalDay w \<le> expiresAt m)"

text \<open>
  \<open>expiriesAhead w\<close>: the two local midnights that the generators compute as expiry are
  not before the start of the current local day, so that a mission just generated counts
  as unexpired. It depends on the clock and the zone only, and holds in a zone whose
  offsets are within a day of each other (\<open>offsets_expiriesAhead\<close>).
\<close>

definition expiriesAhead :: "world \<Rightarrow> bool" where
  "expiriesAhead w \<longleftrightarrow>
     startOfLocalDay w \<le> localMidnight (zone w) (clock w) 1 \<and>
     startOfLocalDay w \<le> localMidnight (zone w) (clock w) 7"

definition loadedMissions :: "string \<Rightarrow> world \<Rightarrow> Mission list" where
  "loadedMissions uid w = sortMissions (filter (\<lambda>m. missionUserId m = uid) (missionsTbl w))"

definition loaded :: "string \<Rightarrow> world \<Rightarrow> screen \<Rightarrow> screen" where
  "loaded uid w s =
     s\<lparr>userId := Some uid,
       userPoints := (case filter (\<lambda>u. user_id u = uid) (users w) of
                        [] \<Rightarrow> userPoints s | u # _ \<Rightarrow> pointsOrZero u),
       missions := loadedMissions uid w\<rparr>"

fun storedFrom :: "nat \<Rightarrow> NewMission list \<Rightarrow> Mission list" where
  "storedFrom i [] = []"
| "storedFrom i (m # ms) = stored i m # storedFrom (Suc i) ms"

definition grows :: "string \<Rightarrow> world \<Rightarrow> world \<Rightarrow> bool" where
  "grows uid w w' \<longleftrightarrow>
     faults w' = [] \<and> authUser w' = authUser w \<and> clock w' = clock w \<and>
     zone w' = zone w \<and> users w' = users w \<and>
     (\<exists>extra. missionsTbl w' = missionsTbl w @ extra \<and>
        (\<forall>m\<in>set extra. maxId (missionsTbl w) < mission_id m \<and> missionUserId m = uid) \<and>
        distinct (map mission_id extra))"

definition dailyRows :: "string \<Rightarrow> world \<Rightarrow> Mission list" where
  "dailyRows uid w =
     storedFrom (freshId (missionsTbl w))
       (map (missionOf uid (localMidnight (zone w) (clock w) 1) (clock w)) dailyMissionTemplates)"

definition weeklyRows :: "string \<Rightarrow> world \<Rightarrow> Mission list" where
  "weeklyRows uid w =
     storedFrom (freshId (missionsTbl w))
       (map (missionOf uid (localMidnight (zone w) (clock w) 7) (clock w)) weeklyMissionTemplates)"

definition withRows :: "Mission list \<Rightarrow> world \<Rightarrow> world" where
  "withRows ms w = w\<lparr>missionsTbl := missionsTbl w @ ms\<rparr>"

definition ofType :: "mission_type \<Rightarrow> world \<Rightarrow> Mission list" where
  "ofType ty w = filter (\<lambda>m. mtype m = ty) (missionsTbl w)"

definition settles :: "string \<Rightarrow> world \<Rightarrow> screen \<Rightarrow> world \<Rightarrow> screen \<Rightarrow> bool" where
  "settles uid w s w' s' \<longleftrightarrow>
     grows uid w w' \<and> hasActive Daily uid w' \<and> hasActive Weekly uid w' \<and>
     s' = loaded uid w' s \<and>
     (hasActive Daily uid w \<longrightarrow> ofType Daily w' = ofType Daily w) \<and>
     (hasActive Weekly uid w \<longrightarrow> ofType Weekly w' = ofType Weekly w)"

definition goodReload :: "string \<Rightarrow> (world \<Rightarrow> screen \<Rightarrow> (world \<times> screen) option) \<Rightarrow> bool" where
  "goodReload uid r \<longleftrightarrow>
     (\<forall>w s w' s'. quiet w \<and> authUser w = Some uid \<and> r w s = Some (w', s') \<longrightarrow> settles uid w s w' s')"

definition missing :: "string \<Rightarrow> world \<Rightarrow> nat" where
  "missing uid w = (if hasActive Daily uid w then 0 else 1) + (if hasActive Weekly uid w then 0 else 1)"

text \<open>
  The row and user updates written by a progress report, the points the store holds for a
  user (those of the first row with the user's id, as \<open>loadData\<close> reads them), and the
  fields of a mission row as a tuple.
\<close>

definition recorded :: "nat \<Rightarrow> int \<Rightarrow> bool \<Rightarrow> Mission \<Rightarrow> Mission" where
  "recorded missionId newProgress isCompleted m =
     (if mission_id m = missionId then m\<lparr>progress := newProgress, completed := isCompleted\<rparr> else m)"

definition credited :: "string \<Rightarrow> int \<Rightarrow> User \<Rightarrow> User" where
  "credited uid newPoints u = (if user_id u = uid then u\<lparr>user_points := Some newPoints\<rparr> else u)"

definition pointsOf :: "string \<Rightarrow> world \<Rightarrow> int option" where
  "pointsOf uid w =
     (case filter (\<lambda>u. user_id u = uid) (users w) of [] \<Rightarrow> None | u # _ \<Rightarrow> Some (pointsOrZero u))"

definition rowFields ::
  "Mission \<Rightarrow> string \<times> mission_type \<times> int \<times> int \<times> int \<times> bool \<times> string \<times> int \<times> int \<times> nat" where
  "rowFields m = (title m, mtype m, points m, target m, progress m, completed m,
                  missionUserId m, expiresAt m, createdAt m, mission_id m)"

text \<open>
  For worlds in which requests may fail: a world reached from another with the users
  table, the clock and the time zone unchanged, no more pending request outcomes and the mission
  table extended at its end; a screen that differs from another by load-error alerts at most; and a reload that
  only makes such steps.
\<close>

definition keeps :: "world \<Rightarrow> world \<Rightarrow> bool" where
  "keeps w w' \<longleftrightarrow>
     users w' = users w \<and> zone w' = zone w \<and> clock w' = clock w \<and>
     length (faults w') \<le> length (faults w) \<and>
     (\<exists>extra. missionsTbl w' = missionsTbl w @ extra)"

definition onlyLoadErrors :: "screen \<Rightarrow> screen \<Rightarrow> bool" where
  "onlyLoadErrors s s' \<longleftrightarrow> set (alerts s') \<subseteq> insert LoadDataError (set (alerts s))"

definition keepingReload :: "(world \<Rightarrow> screen \<Rightarrow> (world \<times> screen) option) \<Rightarrow> bool" where
  "keepingReload r \<longleftrightarrow> (\<forall>w s w' s'. r w s = Some (w', s') \<longrightarrow> keeps w w' \<and> onlyLoadErrors s s')"

text \<open>
  Sample data: 8 January 2024 is day 19730; two foods of 300 and 500 kcal and one
  exercise of 200 kcal logged that day, read at 01:00 UTC; two weighings a week apart.
  10 March 2024 is day 19792; a food of 300 kcal dated 4 March and one of 500 kcal dated
  10 March, read in New York on 10 March at 19:30 local time (23:30 UTC).
\<close>

definition mar10_2330 :: int where
  "mar10_2330 = 19792 * 86400000 + 84600000"

definition bread :: Food where
  "bread = \<lparr>foodUserId = ''u1'', name = ''bread'', calories = 300, protein = 14, fat = 5,
             carbs = 60, fiber = 2, foodDate = 19786\<rparr>"

definition soup :: Food where
  "soup = \<lparr>foodUserId = ''u1'', name = ''soup'', calories = 500, protein = 14, fat = 5,
            carbs = 60, fiber = 2, foodDate = 19792\<rparr>"

definition jan8_1am :: int where
  "jan8_1am = 19730 * 86400000 + 3600000"

definition rice :: Food where
  "rice = \<lparr>foodUserId = ''u1'', name = ''rice'', calories = 300, protein = 10, fat = 5,
            carbs = 60, fiber = 2, foodDate = 19730\<rparr>"

definition omelette :: Food where
  "omelette = \<lparr>foodUserId = ''u1'', name = ''omelette'', calories = 500, protein = 10, fat = 5,
                carbs = 60, fiber = 2, foodDate = 19730\<rparr>"

definition jog :: Exercise where
  "jog = \<lparr>exerciseUserId = ''u1'', duration = 30, caloriesBurned = 200, exerciseDate = 19730\<rparr>"

definition weighJan8 :: WeightRecord where
  "weighJan8 = \<lparr>weightUserId = ''u1'', weight = 70, weightDate = 1704672000000\<rparr>"

definition weighJan1 :: WeightRecord where
  "weighJan1 = \<lparr>weightUserId = ''u1'', weight = 71, weightDate = 1704067200000\<rparr>"

text \<open>
  Sample store on 8 January 2024, 01:00 UTC, on a device in the zone UTC, for the user
  \<open>u1\<close> with 5 points: one unexpired daily and one unexpired weekly mission (\<open>monday\<close>, with
  the screen as loaded from it), the same store with the daily mission only (\<open>dailyOnly\<close>)
  and the same store without missions (\<open>emptyStore\<close>). And a store without missions on a
  device in New York on 10 March 2024 at 01:00 local time, 06:00 UTC, an hour before the
  clocks go forward (\<open>newYorkStore\<close>).
\<close>

definition foodMission :: Mission where
  "foodMission = \<lparr>title = ''logFoodTwice'', description = ''logFoodTwiceDesc'', mtype = Daily,
     points = 10, target = 2, progress = 0, completed = False, missionUserId = ''u1'',
     expiresAt = 1704758400000, createdAt = 1704675600000, mission_id = 1\<rparr>"

definition burnMission :: Mission where
  "burnMission = \<lparr>title = ''burnCalories'', description = ''burnCaloriesDesc'', mtype = Weekly,
     points = 50, target = 1000, progress = 0, completed = False, missionUserId = ''u1'',
     expiresAt = 1705276800000, createdAt = 1704675600000, mission_id = 2\<rparr>"

definition monday :: world where
  "monday = \<lparr>clock = 1704675600000, zone = fixedOffset 0, authUser = Some ''u1'',
     users = [\<lparr>user_id = ''u1'', user_points = Some 5\<rparr>],
     missionsTbl = [foodMission, burnMission], faults = []\<rparr>"

definition dailyOnly :: world where
  "dailyOnly = \<lparr>clock = 1704675600000, zone = fixedOffset 0, authUser = Some ''u1'',
     users = [\<lparr>user_id = ''u1'', user_points = Some 5\<rparr>],
     missionsTbl = [foodMission], faults = []\<rparr>"

definition mondayScreen :: screen where
  "mondayScreen = \<lparr>userId = Some ''u1'', missions = [foodMission, burnMission],
     userPoints = 5, alerts = []\<rparr>"

definition emptyStore :: world where
  "emptyStore = \<lparr>clock = 1704675600000, zone = fixedOffset 0, authUser = Some ''u1'',
     users = [\<lparr>user_id = ''u1'', user_points = Some 5\<rparr>], missionsTbl = [], faults = []\<rparr>"

definition newYorkStore :: world where
  "newYorkStore = \<lparr>clock = 1710050400000, zone = newYorkMarch2024, authUser = Some ''u1'',
     users = [\<lparr>user_id = ''u1'', user_points = Some 5\<rparr>], missionsTbl = [], faults = []\<rparr>"

section \<open>Facts about the aggregates\<close>

lemma foldl_plus_sum_list:
  "foldl (\<lambda>sum x. sum + f x) a xs = a + sum_list (map f xs)"
  for a :: real
  by (induction xs arbitrary: a) (simp_all add: add.assoc)

lemma daysBefore_sameOffset: "sameOffset z t i \<Longrightarrow> daysBefore z t i = t - int i * msPerDay"
  by (simp add: sameOffset_def daysBefore_def utcOf_def localTime_def)


lemma fixedOffset_within [simp]: "offsetsWithinADay (fixedOffset k)"
  by (simp add: offsetsWithinADay_def fixedOffset_def msPerDay_def)

lemma newYork_within: "offsetsWithinADay newYorkMarch2024"
  by (simp add: offsetsWithinADay_def newYorkMarch2024_def msPerDay_def)

lemma localMidnight_later:
  assumes "offsetsWithinADay z" and "1 \<le> k"
  shows "localMidnight z t 0 \<le> localMidnight z t k"
proof -
  define d where "d = localTime z t div msPerDay"
  have "offsetAtLocal z ((d + k) * msPerDay) - offsetAtLocal z (d * msPerDay) \<le> msPerDay"
    using assms(1) by (simp add: offsetsWithinADay_def)
  moreover have "msPerDay \<le> k * msPerDay"
    using assms(2) by (simp add: msPerDay_def)
  ultimately show ?thesis
    by (simp add: localMidnight_def utcOf_def d_def [symmetric] distrib_right)
qed

lemma offsets_expiriesAhead: "offsetsWithinADay (zone w) \<Longrightarrow> expiriesAhead w"
  using localMidnight_later [of "zone w" 1 "clock w"] localMidnight_later [of "zone w" 7 "clock w"]
  by (simp add: expiriesAhead_def startOfLocalDay_def)

lemma expiriesAhead_same:
  "zone v = zone w \<Longrightarrow> clock v = clock w \<Longrightarrow> expiriesAhead v = expiriesAhead w"
  by (simp add: expiriesAhead_def startOfLocalDay_def)

lemma toISODate_daysBefore:
  "sameOffset z t i \<Longrightarrow> toISODate (daysBefore z t i) = toISODate t - int i"
proof -
  have "(t - int i * msPerDay) div msPerDay = t div msPerDay - int i"
    using div_mult_self1 [of msPerDay t "- int i"] by (simp add: msPerDay_def)
  then show "sameOffset z t i \<Longrightarrow> ?thesis"
    by (simp add: toISODate_def daysBefore_sameOffset)
qed

lemma last7Days_dates:
  assumes "\<forall>i<7. sameOffset z t i"
  shows "last7Days z t =
     [toISODate t - 6, toISODate t - 5, toISODate t - 4, toISODate t - 3,
      toISODate t - 2, toISODate t - 1, toISODate t]"
proof -
  have steps: "[0..<7] = [0, 1, 2, 3, 4, 5, 6::nat]"
    by (simp add: upt_rec)
  show ?thesis
    using assms by (simp add: last7Days_def steps toISODate_daysBefore)
qed

lemma loadDashboardData_rows:
  "loadDashboardData z t (rows foods) (rows exercises) weightR h = h' \<Longrightarrow>
   caloriesIn h' = totalCaloriesIn t (Some foods) \<and>
   caloriesOut h' = totalCaloriesOut t (Some exercises) \<and>
   netCalories h' = totalCaloriesIn t (Some foods) - totalCaloriesOut t (Some exercises) \<and>
   calorieStatus h' =
     (if totalCaloriesOut t (Some exercises) < totalCaloriesIn t (Some foods)
      then Surplus else Deficit) \<and>
   weeklyIn h' = weeklyInSeries z t (Some foods) \<and>
   weeklyOut h' = weeklyOutSeries z t (Some exercises) \<and>
   macroProtein h' = math_round (totalProtein z t (Some foods) / daysCount z t (Some foods)) \<and>
   macroFat h' = math_round (totalFat z t (Some foods) / daysCount z t (Some foods)) \<and>
   macroCarbs h' = math_round (totalCarbs z t (Some foods) / daysCount z t (Some foods))"
  by (auto simp: loadDashboardData_def rows_def Let_def)

lemma loadDashboardData_trend:
  "weightTrend (loadDashboardData z t (rows foods) (rows exercises) (rows ws) h) =
     homeTrend (Some ws) (weightTrend h)"
  by (simp add: loadDashboardData_def rows_def Let_def)





section \<open>Facts about the record store\<close>

lemma request_quiet: "quiet w \<Longrightarrow> request w = (False, w)"
  by (simp add: quiet_def request_def)

lemma getCurrentUser_quiet:
  "quiet w \<Longrightarrow> authUser w = Some uid \<Longrightarrow> getCurrentUser w = ((None, Some uid), w)"
  by (simp add: getCurrentUser_def request_quiet)

lemma getCurrentUser_signed_out:
  "quiet w \<Longrightarrow> authUser w = None \<Longrightarrow>
   getCurrentUser w = ((Some ''Auth session missing!'', None), w)"
  by (simp add: getCurrentUser_def request_quiet)

lemma getUsers_quiet:
  "quiet w \<Longrightarrow> getUsers uid w = (rows (filter (\<lambda>u. user_id u = uid) (users w)), w)"
  by (simp add: getUsers_def request_quiet)

lemma getMissions_quiet:
  "quiet w \<Longrightarrow> getMissions uid w = (rows (filter (\<lambda>m. missionUserId m = uid) (missionsTbl w)), w)"
  by (simp add: getMissions_def request_quiet)

lemma getBadges_quiet: "quiet w \<Longrightarrow> getBadges uid w = (rows [], w)"
  by (simp add: getBadges_def request_quiet)

lemma insertMission_quiet:
  "quiet w \<Longrightarrow> insertMission m w =
     (None, w\<lparr>missionsTbl := missionsTbl w @ [stored (freshId (missionsTbl w)) m]\<rparr>)"
  by (simp add: insertMission_def request_quiet)

lemma updateMission_quiet:
  "quiet w \<Longrightarrow> updateMission i p c w =
     (None, w\<lparr>missionsTbl := map (\<lambda>m. if mission_id m = i then m\<lparr>progress := p, completed := c\<rparr> else m) (missionsTbl w)\<rparr>)"
  by (simp add: updateMission_def request_quiet)

lemma updateUserPoints_quiet:
  "quiet w \<Longrightarrow> updateUserPoints uid p w =
     (None, w\<lparr>users := map (\<lambda>u. if user_id u = uid then u\<lparr>user_points := Some p\<rparr> else u) (users w)\<rparr>)"
  by (simp add: updateUserPoints_def request_quiet)

lemma maxId_append: "maxId (xs @ ys) = max (maxId xs) (maxId ys)"
  by (induction xs) auto

lemma maxId_ge: "m \<in> set ms \<Longrightarrow> mission_id m \<le> maxId ms"
  by (induction ms) auto

lemma mission_id_stored [simp]: "mission_id (stored i m) = i"
  by (simp add: stored_def)

lemma stored_fields [simp]:
  "mtype (stored i m) = mtype m" "missionUserId (stored i m) = missionUserId m"
  "expiresAt (stored i m) = expiresAt m" "completed (stored i m) = completed m"
  "progress (stored i m) = progress m" "target (stored i m) = target m"
  "points (stored i m) = points m" "createdAt (stored i m) = createdAt m"
  "title (stored i m) = title m" "description (stored i m) = description m"
  by (simp_all add: stored_def)

lemma freshId_snoc: "freshId (ms @ [stored (freshId ms) m]) = Suc (freshId ms)"
  by (simp add: freshId_def maxId_append)

lemma insert_fold_quiet:
  "quiet w \<Longrightarrow>
   fold (\<lambda>template v. snd (insertMission (f template) v)) ts w =
     w\<lparr>missionsTbl := missionsTbl w @ storedFrom (freshId (missionsTbl w)) (map f ts)\<rparr>"
proof (induction ts arbitrary: w)
  case Nil
  then show ?case by simp
next
  case (Cons t ts)
  let ?w1 = "w\<lparr>missionsTbl := missionsTbl w @ [stored (freshId (missionsTbl w)) (f t)]\<rparr>"
  have q1: "quiet ?w1" using Cons.prems by (simp add: quiet_def)
  show ?case
    using Cons.IH [OF q1] Cons.prems
    by (simp add: insertMission_quiet freshId_snoc)
qed

section \<open>Facts about the mission engine when every request succeeds\<close>

lemma active_filter:
  "filter (\<lambda>mission. mtype mission = ty \<and> startOfLocalDay w \<le> expiresAt mission)
     (loadedMissions uid w) = [] \<longleftrightarrow> \<not> hasActive ty uid w"
  by (auto simp: loadedMissions_def sortMissions_def hasActive_def filter_empty_conv)

lemma active_length:
  "length (filter (\<lambda>mission. mtype mission = ty \<and> startOfLocalDay w \<le> expiresAt mission)
             (loadedMissions uid w)) = 0 \<longleftrightarrow> \<not> hasActive ty uid w"
  by (simp add: active_filter)

lemma generateDailyMissions_quiet:
  "quiet w \<Longrightarrow> generateDailyMissions reload uid w s = reload (withRows (dailyRows uid w) w) s"
  by (simp add: generateDailyMissions_def Let_def insert_fold_quiet dailyRows_def withRows_def)

lemma generateWeeklyMissions_quiet:
  "quiet w \<Longrightarrow> generateWeeklyMissions reload uid w s = reload (withRows (weeklyRows uid w) w) s"
  by (simp add: generateWeeklyMissions_def Let_def insert_fold_quiet weeklyRows_def withRows_def)

lemma checkAndGenerateMissions_quiet:
  "quiet w \<Longrightarrow>
   checkAndGenerateMissions reload uid (loadedMissions uid w) w s =
     (case (if hasActive Daily uid w then Some (w, s)
            else generateDailyMissions reload uid w s) of
        None \<Rightarrow> None
      | Some (w1, s1) \<Rightarrow>
          if hasActive Weekly uid w then Some (w1, s1)
          else generateWeeklyMissions reload uid w1 s1)"
  unfolding checkAndGenerateMissions_def Let_def active_length
  by (simp split: option.splits)

lemma loaded_step:
  "(case data (rows (filter (\<lambda>u. user_id u = uid) (users w))) of
      Some (u # _) \<Rightarrow> s\<lparr>userId := Some uid, userPoints := pointsOrZero u\<rparr>
    | _ \<Rightarrow> s\<lparr>userId := Some uid\<rparr>)\<lparr>missions := loadedMissions uid w\<rparr> = loaded uid w s"
  by (cases "filter (\<lambda>u. user_id u = uid) (users w)") (simp_all add: rows_def loaded_def)

lemma loadData_signed_out:
  "quiet w \<Longrightarrow> authUser w = None \<Longrightarrow> loadData (Suc n) w s = Some (w, alert LoadDataError s)"
  by (simp add: getCurrentUser_signed_out)

lemma loadData_quiet:
  "quiet w \<Longrightarrow> authUser w = Some uid \<Longrightarrow>
   loadData (Suc n) w s =
     (case checkAndGenerateMissions (loadData n) uid (loadedMissions uid w) w (loaded uid w s) of
        None \<Rightarrow> None
      | Some (w4, s4) \<Rightarrow>
          (let (badgesR, w5) = getBadges uid w4
           in if error badgesR \<noteq> None then Some (w5, alert LoadDataError s4) else Some (w5, s4)))"
  using loaded_step [of uid w s]
  by (simp add: getCurrentUser_quiet getUsers_quiet getMissions_quiet Let_def rows_def loadedMissions_def)


lemma missionOf_fields [simp]:
  "mtype (missionOf uid e c t) = mtype t" "missionUserId (missionOf uid e c t) = uid"
  "expiresAt (missionOf uid e c t) = e" "completed (missionOf uid e c t) = completed t"
  "progress (missionOf uid e c t) = progress t" "target (missionOf uid e c t) = target t"
  "points (missionOf uid e c t) = points t" "createdAt (missionOf uid e c t) = c"
  "title (missionOf uid e c t) = title t" "description (missionOf uid e c t) = description t"
  by (simp_all add: missionOf_def)

lemma dailyRows_list:
  "dailyRows uid w =
     (let k = freshId (missionsTbl w); e = localMidnight (zone w) (clock w) 1; c = clock w
      in [stored k (missionOf uid e c (dailyMissionTemplates ! 0)),
          stored (k + 1) (missionOf uid e c (dailyMissionTemplates ! 1)),
          stored (k + 2) (missionOf uid e c (dailyMissionTemplates ! 2))])"
  by (simp add: dailyRows_def dailyMissionTemplates_def Let_def)

lemma weeklyRows_list:
  "weeklyRows uid w =
     (let k = freshId (missionsTbl w); e = localMidnight (zone w) (clock w) 7; c = clock w
      in [stored k (missionOf uid e c (weeklyMissionTemplates ! 0)),
          stored (k + 1) (missionOf uid e c (weeklyMissionTemplates ! 1)),
          stored (k + 2) (missionOf uid e c (weeklyMissionTemplates ! 2))])"
  by (simp add: weeklyRows_def weeklyMissionTemplates_def Let_def)

lemma dailyRows_props:
  "m \<in> set (dailyRows uid w) \<Longrightarrow>
     mtype m = Daily \<and> missionUserId m = uid \<and> expiresAt m = localMidnight (zone w) (clock w) 1 \<and>
     maxId (missionsTbl w) < mission_id m \<and> progress m = 0 \<and> \<not> completed m \<and>
     createdAt m = clock w"
  by (auto simp: dailyRows_list Let_def dailyMissionTemplates_def freshId_def)

lemma weeklyRows_props:
  "m \<in> set (weeklyRows uid w) \<Longrightarrow>
     mtype m = Weekly \<and> missionUserId m = uid \<and> expiresAt m = localMidnight (zone w) (clock w) 7 \<and>
     maxId (missionsTbl w) < mission_id m \<and> progress m = 0 \<and> \<not> completed m \<and>
     createdAt m = clock w"
  by (auto simp: weeklyRows_list Let_def weeklyMissionTemplates_def freshId_def)

lemma dailyRows_ids: "map mission_id (dailyRows uid w) =
    [freshId (missionsTbl w), freshId (missionsTbl w) + 1, freshId (missionsTbl w) + 2]"
  by (simp add: dailyRows_list Let_def)

lemma weeklyRows_ids: "map mission_id (weeklyRows uid w) =
    [freshId (missionsTbl w), freshId (missionsTbl w) + 1, freshId (missionsTbl w) + 2]"
  by (simp add: weeklyRows_list Let_def)

lemma dailyRows_nonempty: "dailyRows uid w \<noteq> []" 
  by (simp add: dailyRows_list Let_def)

lemma weeklyRows_nonempty: "weeklyRows uid w \<noteq> []" 
  by (simp add: weeklyRows_list Let_def)

lemma withRows_fields [simp]:
  "faults (withRows ms w) = faults w" "authUser (withRows ms w) = authUser w"
  "clock (withRows ms w) = clock w" "zone (withRows ms w) = zone w"
  "users (withRows ms w) = users w" "missionsTbl (withRows ms w) = missionsTbl w @ ms"
  "startOfLocalDay (withRows ms w) = startOfLocalDay w"
  by (simp_all add: withRows_def startOfLocalDay_def)

lemma quiet_withRows [simp]: "quiet (withRows ms w) = quiet w"
  by (simp add: quiet_def)

lemma expiriesAhead_withRows [simp]: "expiriesAhead (withRows ms w) = expiriesAhead w"
  by (rule expiriesAhead_same) simp_all

lemma grows_refl: "quiet w \<Longrightarrow> grows uid w w"
  by (simp add: grows_def quiet_def)

lemma grows_trans:
  assumes "grows uid a b" and "grows uid b c"
  shows "grows uid a c"
proof -
  from assms(1) obtain e1 where e1: "missionsTbl b = missionsTbl a @ e1"
    "\<forall>m\<in>set e1. maxId (missionsTbl a) < mission_id m \<and> missionUserId m = uid"
    "distinct (map mission_id e1)"
    by (auto simp: grows_def)
  from assms(2) obtain e2 where e2: "missionsTbl c = missionsTbl b @ e2"
    "\<forall>m\<in>set e2. maxId (missionsTbl b) < mission_id m \<and> missionUserId m = uid"
    "distinct (map mission_id e2)"
    by (auto simp: grows_def)
  have tbl: "missionsTbl c = missionsTbl a @ (e1 @ e2)"
    using e1(1) e2(1) by simp
  have ids: "\<forall>m\<in>set (e1 @ e2). maxId (missionsTbl a) < mission_id m \<and> missionUserId m = uid"
    using e1(2) e2(2) by (auto simp: e1(1) maxId_append)
  have apart: "mission_id x \<noteq> mission_id y" if "x \<in> set e1" "y \<in> set e2" for x y
  proof -
    have "mission_id x \<le> maxId e1" using that(1) by (rule maxId_ge)
    moreover have "maxId e1 < mission_id y"
      using e2(2) that(2) by (auto simp: e1(1) maxId_append)
    ultimately show ?thesis by simp
  qed
  have dist: "distinct (map mission_id (e1 @ e2))"
    using e1(3) e2(3) apart by auto
  show ?thesis
    unfolding grows_def
    using assms tbl ids dist by (auto simp: grows_def)
qed

lemma grows_withRows_daily: "quiet w \<Longrightarrow> grows uid w (withRows (dailyRows uid w) w)"
  unfolding grows_def
  using dailyRows_props [of _ uid w]
  by (auto simp: quiet_def dailyRows_ids intro!: exI [of _ "dailyRows uid w"])

lemma grows_withRows_weekly: "quiet w \<Longrightarrow> grows uid w (withRows (weeklyRows uid w) w)"
  unfolding grows_def
  using weeklyRows_props [of _ uid w]
  by (auto simp: quiet_def weeklyRows_ids intro!: exI [of _ "weeklyRows uid w"])

lemma hasActive_grows: "grows uid w w' \<Longrightarrow> hasActive ty uid w \<Longrightarrow> hasActive ty uid w'"
  by (auto simp: hasActive_def grows_def startOfLocalDay_def)

lemma hasActive_withRows_daily:
  assumes "expiriesAhead w"
  shows "hasActive Daily uid (withRows (dailyRows uid w) w)"
proof -
  obtain m where m: "m \<in> set (dailyRows uid w)"
    using dailyRows_nonempty [of uid w] by (cases "dailyRows uid w") auto
  have "startOfLocalDay w \<le> expiresAt m"
    using dailyRows_props [OF m] assms by (simp add: expiriesAhead_def)
  then show ?thesis
    using dailyRows_props [OF m] m by (auto simp: hasActive_def)
qed

lemma hasActive_withRows_weekly:
  assumes "expiriesAhead w"
  shows "hasActive Weekly uid (withRows (weeklyRows uid w) w)"
proof -
  obtain m where m: "m \<in> set (weeklyRows uid w)"
    using weeklyRows_nonempty [of uid w] by (cases "weeklyRows uid w") auto
  have "startOfLocalDay w \<le> expiresAt m"
    using weeklyRows_props [OF m] assms by (simp add: expiriesAhead_def)
  then show ?thesis
    using weeklyRows_props [OF m] m by (auto simp: hasActive_def)
qed

lemma ofType_withRows_daily:
  "ofType ty (withRows (dailyRows uid w) w) =
     (if ty = Daily then ofType Daily w @ dailyRows uid w else ofType ty w)"
  using dailyRows_props [of _ uid w]
  by (auto simp: ofType_def filter_empty_conv filter_id_conv)

lemma ofType_withRows_weekly:
  "ofType ty (withRows (weeklyRows uid w) w) =
     (if ty = Weekly then ofType Weekly w @ weeklyRows uid w else ofType ty w)"
  using weeklyRows_props [of _ uid w]
  by (auto simp: ofType_def filter_empty_conv filter_id_conv)

lemma loaded_loaded:
  "users w' = users w \<Longrightarrow> loaded uid w' (loaded uid w s) = loaded uid w' s"
  by (cases "filter (\<lambda>u. user_id u = uid) (users w)") (simp_all add: loaded_def)

lemma loaded_idem: "loaded uid w (loaded uid w s) = loaded uid w s"
  by (simp add: loaded_loaded)


lemma settles_world:
  "settles uid w s w' s' \<Longrightarrow>
   quiet w' \<and> authUser w' = authUser w \<and> users w' = users w \<and>
   expiriesAhead w' = expiriesAhead w"
  using expiriesAhead_same [of w' w] by (simp add: settles_def grows_def quiet_def)

lemma settles_here:
  "quiet w \<Longrightarrow> hasActive Daily uid w \<Longrightarrow> hasActive Weekly uid w \<Longrightarrow>
   settles uid w s w (loaded uid w s)"
  by (simp add: settles_def grows_refl)

lemma settles_after_daily:
  assumes q: "quiet w" and nd: "\<not> hasActive Daily uid w"
    and st: "settles uid (withRows (dailyRows uid w) w) (loaded uid w s) w' s'"
  shows "settles uid w s w' s'"
proof -
  let ?wd = "withRows (dailyRows uid w) w"
  have g: "grows uid w w'"
    using grows_trans [OF grows_withRows_daily [OF q]] st by (simp add: settles_def)
  have us: "users w' = users w"
    using g by (simp add: grows_def)
  have s': "s' = loaded uid w' s"
    using st us by (simp add: settles_def loaded_loaded)
  have wk: "ofType Weekly w' = ofType Weekly w" if "hasActive Weekly uid w"
  proof -
    have "hasActive Weekly uid ?wd"
      using hasActive_grows [OF grows_withRows_daily [OF q] that] .
    then have "ofType Weekly w' = ofType Weekly ?wd"
      using st by (simp add: settles_def)
    then show ?thesis by (simp add: ofType_withRows_daily)
  qed
  show ?thesis
    using st g s' wk nd by (simp add: settles_def)
qed

lemma settles_after_weekly:
  assumes q: "quiet w" and nw: "\<not> hasActive Weekly uid w"
    and st: "settles uid (withRows (weeklyRows uid w) w) (loaded uid w s) w' s'"
  shows "settles uid w s w' s'"
proof -
  let ?ww = "withRows (weeklyRows uid w) w"
  have g: "grows uid w w'"
    using grows_trans [OF grows_withRows_weekly [OF q]] st by (simp add: settles_def)
  have us: "users w' = users w"
    using g by (simp add: grows_def)
  have s': "s' = loaded uid w' s"
    using st us by (simp add: settles_def loaded_loaded)
  have dy: "ofType Daily w' = ofType Daily w" if "hasActive Daily uid w"
  proof -
    have "hasActive Daily uid ?ww"
      using hasActive_grows [OF grows_withRows_weekly [OF q] that] .
    then have "ofType Daily w' = ofType Daily ?ww"
      using st by (simp add: settles_def)
    then show ?thesis by (simp add: ofType_withRows_weekly)
  qed
  show ?thesis
    using st g s' dy nw by (simp add: settles_def)
qed

lemma settles_then_weekly:
  assumes nd: "\<not> hasActive Daily uid w" and nw: "\<not> hasActive Weekly uid w"
    and st1: "settles uid w s w1 s1"
    and st2: "settles uid (withRows (weeklyRows uid w1) w1) s1 w' s'"
  shows "settles uid w s w' s'"
proof -
  have q1: "quiet w1" using settles_world [OF st1] by simp
  have g: "grows uid w w'"
    using grows_trans [OF _ grows_trans [OF grows_withRows_weekly [OF q1]]] st1 st2
    by (simp add: settles_def)
  have us: "users w' = users w1"
    using st2 by (simp add: settles_def grows_def)
  have s': "s' = loaded uid w' s"
    using st1 st2 us by (simp add: settles_def loaded_loaded)
  show ?thesis
    using st2 g s' nd nw by (simp add: settles_def)
qed

lemma check_settles:
  assumes good: "goodReload uid reload"
    and q: "quiet w" and au: "authUser w = Some uid"
    and run: "checkAndGenerateMissions reload uid (loadedMissions uid w) w (loaded uid w s)
                = Some (w', s')"
  shows "settles uid w s w' s'"
proof (cases "hasActive Daily uid w")
  case da: True
  show ?thesis
  proof (cases "hasActive Weekly uid w")
    case True
    then have "w' = w \<and> s' = loaded uid w s"
      using run q da by (auto simp: checkAndGenerateMissions_quiet)
    then show ?thesis
      using settles_here [OF q da True] by simp
  next
    case nw: False
    let ?ww = "withRows (weeklyRows uid w) w"
    have "reload ?ww (loaded uid w s) = Some (w', s')"
      using run q da nw by (simp add: checkAndGenerateMissions_quiet generateWeeklyMissions_quiet)
    then have "settles uid ?ww (loaded uid w s) w' s'"
      using good q au by (simp add: goodReload_def)
    then show ?thesis
      by (rule settles_after_weekly [OF q nw])
  qed
next
  case nd: False
  let ?wd = "withRows (dailyRows uid w) w"
  obtain w1 s1 where r1: "reload ?wd (loaded uid w s) = Some (w1, s1)"
    using run q nd
    by (auto simp: checkAndGenerateMissions_quiet generateDailyMissions_quiet split: option.splits)
  have st_d: "settles uid ?wd (loaded uid w s) w1 s1"
    using good q au r1 by (simp add: goodReload_def)
  have st1: "settles uid w s w1 s1"
    by (rule settles_after_daily [OF q nd st_d])
  have q1: "quiet w1" and au1: "authUser w1 = Some uid"
    using settles_world [OF st1] au by simp_all
  show ?thesis
  proof (cases "hasActive Weekly uid w")
    case True
    then have "w' = w1 \<and> s' = s1"
      using run q nd r1
      by (simp add: checkAndGenerateMissions_quiet generateDailyMissions_quiet)
    then show ?thesis using st1 by simp
  next
    case nw: False
    let ?ww = "withRows (weeklyRows uid w1) w1"
    have "reload ?ww s1 = Some (w', s')"
      using run q nd nw r1 q1
      by (simp add: checkAndGenerateMissions_quiet generateDailyMissions_quiet
          generateWeeklyMissions_quiet)
    then have "settles uid ?ww s1 w' s'"
      using good q1 au1 by (simp add: goodReload_def)
    then show ?thesis
      by (rule settles_then_weekly [OF nd nw st1])
  qed
qed

lemma loadData_after_check:
  assumes q: "quiet w" and au: "authUser w = Some uid"
    and run: "loadData (Suc n) w s = Some (w', s')"
    and good: "goodReload uid (loadData n)"
  shows "checkAndGenerateMissions (loadData n) uid (loadedMissions uid w) w (loaded uid w s)
           = Some (w', s')"
proof -
  obtain w4 s4 where c: "checkAndGenerateMissions (loadData n) uid (loadedMissions uid w) w
      (loaded uid w s) = Some (w4, s4)"
    using run unfolding loadData_quiet [OF q au] by (auto split: option.splits)
  have "quiet w4"
    using settles_world [OF check_settles [OF good q au c]] by simp
  then show ?thesis
    using run c unfolding loadData_quiet [OF q au] by (simp add: getBadges_quiet rows_def)
qed

lemma loadData_good: "goodReload uid (loadData n)"
proof (induction n)
  case 0
  show ?case by (simp add: goodReload_def)
next
  case (Suc n)
  show ?case
    unfolding goodReload_def
  proof (intro allI impI, elim conjE)
    fix w s w' s'
    assume q: "quiet w" and au: "authUser w = Some uid"
      and run: "loadData (Suc n) w s = Some (w', s')"
    show "settles uid w s w' s'"
      using check_settles [OF Suc.IH q au loadData_after_check [OF q au run Suc.IH]] .
  qed
qed

lemma loadData_settles:
  "quiet w \<Longrightarrow> authUser w = Some uid \<Longrightarrow> loadData n w s = Some (w', s') \<Longrightarrow>
   settles uid w s w' s'"
  using loadData_good [of uid n] by (simp add: goodReload_def)

lemma loadData_of_check:
  assumes q: "quiet w" and au: "authUser w = Some uid"
    and c: "checkAndGenerateMissions (loadData n) uid (loadedMissions uid w) w (loaded uid w s)
              = Some (w', s')"
  shows "loadData (Suc n) w s = Some (w', s')"
proof -
  have "quiet w'"
    using settles_world [OF check_settles [OF loadData_good q au c]] by simp
  then show ?thesis
    using c unfolding loadData_quiet [OF q au] by (simp add: getBadges_quiet rows_def)
qed


lemma missing_withRows_daily:
  assumes "quiet w" and "\<not> hasActive Daily uid w" and "expiriesAhead w"
  shows "missing uid (withRows (dailyRows uid w) w) < missing uid w"
proof -
  have "hasActive Weekly uid w \<Longrightarrow> hasActive Weekly uid (withRows (dailyRows uid w) w)"
    by (rule hasActive_grows [OF grows_withRows_daily [OF assms(1)]])
  then show ?thesis
    using hasActive_withRows_daily [OF assms(3), of uid] assms(2) by (auto simp: missing_def)
qed

lemma missing_withRows_weekly:
  assumes "quiet w" and "\<not> hasActive Weekly uid w" and "expiriesAhead w"
  shows "missing uid (withRows (weeklyRows uid w) w) < missing uid w"
proof -
  have "hasActive Daily uid w \<Longrightarrow> hasActive Daily uid (withRows (weeklyRows uid w) w)"
    by (rule hasActive_grows [OF grows_withRows_weekly [OF assms(1)]])
  then show ?thesis
    using hasActive_withRows_weekly [OF assms(3), of uid] assms(2) by (auto simp: missing_def)
qed

lemma missing_settled:
  "expiriesAhead w \<Longrightarrow> hasActive Daily uid w \<Longrightarrow>
   missing uid (withRows (weeklyRows uid w) w) = 0"
  using hasActive_withRows_weekly [of w uid]
  by (auto simp: missing_def hasActive_def)

lemma check_returns:
  assumes q: "quiet w" and au: "authUser w = Some uid" and z: "expiriesAhead w"
    and smaller: "\<And>v t. quiet v \<Longrightarrow> authUser v = Some uid \<Longrightarrow> expiriesAhead v \<Longrightarrow>
                    missing uid v < missing uid w \<Longrightarrow> \<exists>r. loadData n v t = Some r"
  shows "\<exists>r. checkAndGenerateMissions (loadData n) uid (loadedMissions uid w) w (loaded uid w s)
               = Some r"
proof (cases "hasActive Daily uid w")
  case da: True
  show ?thesis
  proof (cases "hasActive Weekly uid w")
    case True
    then show ?thesis
      using q da by (simp add: checkAndGenerateMissions_quiet)
  next
    case nw: False
    have "\<exists>r. loadData n (withRows (weeklyRows uid w) w) (loaded uid w s) = Some r"
      using smaller [of "withRows (weeklyRows uid w) w"] q au z
        missing_withRows_weekly [OF q nw z]
      by simp
    then show ?thesis
      using q da nw by (simp add: checkAndGenerateMissions_quiet generateWeeklyMissions_quiet)
  qed
next
  case nd: False
  let ?wd = "withRows (dailyRows uid w) w"
  have "\<exists>r. loadData n ?wd (loaded uid w s) = Some r"
    using smaller [of ?wd] q au z missing_withRows_daily [OF q nd z] by simp
  then obtain w1 s1 where r1: "loadData n ?wd (loaded uid w s) = Some (w1, s1)"
    by auto
  have st: "settles uid ?wd (loaded uid w s) w1 s1"
    using loadData_settles [OF _ _ r1] q au by simp
  have q1: "quiet w1" and au1: "authUser w1 = Some uid" and z1: "expiriesAhead w1"
    using settles_world [OF st] au z by simp_all
  have da1: "hasActive Daily uid w1"
    using st by (simp add: settles_def)
  show ?thesis
  proof (cases "hasActive Weekly uid w")
    case True
    then show ?thesis
      using q nd r1 by (simp add: checkAndGenerateMissions_quiet generateDailyMissions_quiet)
  next
    case nw: False
    have "missing uid w = 2"
      using nd nw by (simp add: missing_def)
    then have "\<exists>r. loadData n (withRows (weeklyRows uid w1) w1) s1 = Some r"
      using smaller [of "withRows (weeklyRows uid w1) w1"] q1 au1 z1
        missing_settled [OF z1 da1]
      by simp
    then show ?thesis
      using q nd nw r1 q1
      by (simp add: checkAndGenerateMissions_quiet generateDailyMissions_quiet
          generateWeeklyMissions_quiet)
  qed
qed

lemma loadData_returns:
  "quiet w \<Longrightarrow> authUser w = Some uid \<Longrightarrow> expiriesAhead w \<Longrightarrow> missing uid w \<le> n \<Longrightarrow>
   \<exists>r. loadData (Suc n) w s = Some r"
proof (induction n arbitrary: w s)
  case 0
  have "\<exists>r. checkAndGenerateMissions (loadData 0) uid (loadedMissions uid w) w (loaded uid w s)
          = Some r"
    using check_returns [of w uid 0 s] "0.prems" by simp
  then show ?case
    using loadData_of_check [OF "0.prems"(1,2)] by auto
next
  case (Suc n)
  have "\<exists>r. checkAndGenerateMissions (loadData (Suc n)) uid (loadedMissions uid w) w
          (loaded uid w s) = Some r"
  proof (rule check_returns [OF Suc.prems(1,2,3)])
    fix v t
    assume "quiet v" "authUser v = Some uid" "expiriesAhead v" "missing uid v < missing uid w"
    then show "\<exists>r. loadData (Suc n) v t = Some r"
      using Suc.IH [of v t] Suc.prems(4) by simp
  qed
  then show ?case
    using loadData_of_check [OF Suc.prems(1,2)] by auto
qed

lemma missing_le_2: "missing uid w \<le> 2"
  by (simp add: missing_def)

lemma loadData_total:
  assumes "quiet w" and "expiriesAhead w"
  shows "\<exists>w' s'. loadData (Suc (Suc (Suc n))) w s = Some (w', s')"
proof (cases "authUser w")
  case None
  then show ?thesis
    using loadData_signed_out [OF assms(1) None] by simp
next
  case (Some uid)
  have "missing uid w \<le> Suc (Suc n)"
    using missing_le_2 [of uid w] by simp
  then show ?thesis
    using loadData_returns [OF assms(1) Some assms(2), of "Suc (Suc n)" s] by auto
qed

section \<open>Facts about progress reports and the sample store\<close>

lemma find_Some_in: "find P xs = Some x \<Longrightarrow> x \<in> set xs \<and> P x"
  by (induction xs) (auto split: if_splits)

lemma loadedMissions_set:
  "set (loadedMissions uid w) = {m \<in> set (missionsTbl w). missionUserId m = uid}"
  by (auto simp: loadedMissions_def sortMissions_def)

lemma updateMissionProgress_quiet:
  assumes "quiet w" and "find (\<lambda>m. mission_id m = missionId) (missions s) = Some mission"
  shows "updateMissionProgress reload missionId newProgress w s =
     (let isCompleted = target mission \<le> newProgress;
          w1 = w\<lparr>missionsTbl := map (recorded missionId newProgress isCompleted) (missionsTbl w)\<rparr>
      in if isCompleted \<and> \<not> completed mission \<and> userId s \<noteq> None \<and> userId s \<noteq> Some []
         then reload
                (w1\<lparr>users := map (credited (the (userId s)) (userPoints s + points mission))
                                 (users w1)\<rparr>)
                (alert (MissionCompleted (points mission))
                   (s\<lparr>userPoints := userPoints s + points mission\<rparr>))
         else reload w1 s)"
proof -
  have q1: "quiet (w\<lparr>missionsTbl := ms\<rparr>)" for ms
    using assms(1) by (simp add: quiet_def)
  have rec: "(\<lambda>m. if mission_id m = missionId
                   then m\<lparr>progress := newProgress, completed := c\<rparr> else m)
               = recorded missionId newProgress c" for c
    by (auto simp: recorded_def)
  have cr: "(\<lambda>u. if user_id u = uid then u\<lparr>user_points := Some p\<rparr> else u) = credited uid p"
    for uid p
    by (auto simp: credited_def)
  show ?thesis
    using assms(2)
    by (auto simp: updateMissionProgress_def Let_def updateMission_quiet [OF assms(1)]
        updateUserPoints_quiet [OF q1] rec cr split: option.splits)
qed

lemma recorded_row:
  "mission_id (recorded i p c m) = i \<Longrightarrow>
   progress (recorded i p c m) = p \<and> completed (recorded i p c m) = c \<and>
   renderedProgress (recorded i p c m) = min p (target m)"
  by (simp add: recorded_def renderedProgress_def split: if_splits)

lemma recorded_id [simp]: "mission_id (recorded i p c m) = mission_id m"
  by (simp add: recorded_def)

lemma maxId_recorded [simp]: "maxId (map (recorded i p c) ms) = maxId ms"
  by (induction ms) simp_all

lemma monday_sorted: "loadedMissions ''u1'' monday = [foodMission, burnMission]"
  by (simp add: loadedMissions_def sortMissions_def monday_def foodMission_def burnMission_def typeOrder_def)

lemma monday_loaded: "loaded ''u1'' monday initialScreen = mondayScreen"
  by (simp add: loaded_def monday_sorted mondayScreen_def initialScreen_def)
     (simp add: monday_def pointsOrZero_def)

lemma localMidnight_fixedOffset:
  "localMidnight (fixedOffset 0) t k = (t div msPerDay + k) * msPerDay"
  by (simp add: localMidnight_def utcOf_def localTime_def fixedOffset_def)

lemma monday_active: "hasActive Daily ''u1'' monday" "hasActive Weekly ''u1'' monday" "quiet monday"
  by (simp_all add: hasActive_def quiet_def monday_def foodMission_def burnMission_def
      startOfLocalDay_def localMidnight_fixedOffset msPerDay_def)

lemma sample_zones:
  "expiriesAhead monday" "expiriesAhead emptyStore"
  "expiriesAhead dailyOnly" "expiriesAhead newYorkStore"
  by (rule offsets_expiriesAhead,
      simp add: monday_def emptyStore_def dailyOnly_def newYorkStore_def newYork_within)+

lemma loadData_settled:
  assumes "quiet w" and "authUser w = Some uid"
    and "hasActive Daily uid w" and "hasActive Weekly uid w"
  shows "loadData (Suc n) w s = Some (w, loaded uid w s)"
  by (rule loadData_of_check [OF assms(1,2)])
     (simp add: checkAndGenerateMissions_quiet assms)

lemma check_noop:
  assumes "\<exists>m\<in>set currentMissions. mtype m = Daily \<and> startOfLocalDay w \<le> expiresAt m"
    and "\<exists>m\<in>set currentMissions. mtype m = Weekly \<and> startOfLocalDay w \<le> expiresAt m"
  shows "checkAndGenerateMissions reload uid currentMissions w s = Some (w, s)"
proof -
  have d: "filter (\<lambda>mission. mtype mission = Daily \<and> startOfLocalDay w \<le> expiresAt mission)
             currentMissions \<noteq> []"
    using assms(1) by (simp add: filter_empty_conv)
  have k: "filter (\<lambda>mission. mtype mission = Weekly \<and> startOfLocalDay w \<le> expiresAt mission)
             currentMissions \<noteq> []"
    using assms(2) by (simp add: filter_empty_conv)
  show ?thesis
    using d k by (simp add: checkAndGenerateMissions_def Let_def)
qed

lemma grows_distinct:
  assumes "grows uid w w'" and "distinct (map mission_id (missionsTbl w))"
  shows "distinct (map mission_id (missionsTbl w'))"
proof -
  from assms(1) obtain extra where e: "missionsTbl w' = missionsTbl w @ extra"
    "\<forall>m\<in>set extra. maxId (missionsTbl w) < mission_id m"
    "distinct (map mission_id extra)"
    by (auto simp: grows_def)
  have "mission_id x \<noteq> mission_id y" if "x \<in> set (missionsTbl w)" "y \<in> set extra" for x y
    using maxId_ge [OF that(1)] e(2) that(2) by fastforce
  then show ?thesis
    using assms(2) e(1,3) by auto
qed

lemma loadData_again:
  assumes st: "settles uid w s w1 s1" and au: "authUser w = Some uid"
    and day: "startOfLocalDay (w1\<lparr>clock := t'\<rparr>) = startOfLocalDay w1"
  shows "loadData (Suc k) (w1\<lparr>clock := t'\<rparr>) s1 = Some (w1\<lparr>clock := t'\<rparr>, s1)"
proof -
  let ?v = "w1\<lparr>clock := t'\<rparr>"
  have q: "quiet ?v" and a: "authUser ?v = Some uid"
    using settles_world [OF st] au by (simp_all add: quiet_def)
  have act: "hasActive Daily uid ?v" "hasActive Weekly uid ?v"
    using st day by (simp_all add: settles_def hasActive_def)
  have "loaded uid ?v s1 = loaded uid w1 s1"
    by (simp add: loaded_def loadedMissions_def)
  also have "\<dots> = s1"
    using st by (simp add: settles_def loaded_idem)
  finally show ?thesis
    using loadData_settled [OF q a act, of k s1] by simp
qed

lemma emptyStore_signed_in: "quiet emptyStore" "authUser emptyStore = Some ''u1''"
  by (simp_all add: emptyStore_def quiet_def)

lemma monday_signed_in: "authUser monday = Some ''u1''"
  by (simp add: monday_def)

lemma generateDailyMissions_rows:
  assumes "quiet w" and "authUser w = Some uid" and "expiriesAhead w"
  shows "\<exists>w' s'. generateDailyMissions (loadData (Suc (Suc n))) uid w s = Some (w', s') \<and>
           ofType Daily w' = ofType Daily w @ dailyRows uid w"
proof -
  let ?wd = "withRows (dailyRows uid w) w"
  have q: "quiet ?wd" and a: "authUser ?wd = Some uid" and z: "expiriesAhead ?wd"
    using assms by simp_all
  have "missing uid ?wd \<le> Suc n"
    using hasActive_withRows_daily [OF assms(3), of uid] by (simp add: missing_def)
  then obtain w' s' where r: "loadData (Suc (Suc n)) ?wd s = Some (w', s')"
    using loadData_returns [OF q a z, of "Suc n" s] by auto
  have "ofType Daily w' = ofType Daily ?wd"
    using loadData_settles [OF q a r] hasActive_withRows_daily [OF assms(3), of uid]
    by (simp add: settles_def)
  then show ?thesis
    using r assms(1) by (simp add: generateDailyMissions_quiet ofType_withRows_daily)
qed

lemma generateWeeklyMissions_rows:
  assumes "quiet w" and "authUser w = Some uid" and "expiriesAhead w"
  shows "\<exists>w' s'. generateWeeklyMissions (loadData (Suc (Suc n))) uid w s = Some (w', s') \<and>
           ofType Weekly w' = ofType Weekly w @ weeklyRows uid w"
proof -
  let ?ww = "withRows (weeklyRows uid w) w"
  have q: "quiet ?ww" and a: "authUser ?ww = Some uid" and z: "expiriesAhead ?ww"
    using assms by simp_all
  have "missing uid ?ww \<le> Suc n"
    using hasActive_withRows_weekly [OF assms(3), of uid] by (simp add: missing_def)
  then obtain w' s' where r: "loadData (Suc (Suc n)) ?ww s = Some (w', s')"
    using loadData_returns [OF q a z, of "Suc n" s] by auto
  have "ofType Weekly w' = ofType Weekly ?ww"
    using loadData_settles [OF q a r] hasActive_withRows_weekly [OF assms(3), of uid]
    by (simp add: settles_def)
  then show ?thesis
    using r assms(1) by (simp add: generateWeeklyMissions_quiet ofType_withRows_weekly)
qed

lemma dailyRows_fields:
  "map rowFields (dailyRows uid w) =
     (let e = localMidnight (zone w) (clock w) 1; c = clock w; k = freshId (missionsTbl w)
      in [(''logFoodTwice'', Daily, 10, 2, 0, False, uid, e, c, k),
          (''logExerciseOnce'', Daily, 15, 1, 0, False, uid, e, c, k + 1),
          (''consumeFiber'', Daily, 20, 25, 0, False, uid, e, c, k + 2)])"
  by (simp add: dailyRows_list Let_def rowFields_def dailyMissionTemplates_def)

lemma weeklyRows_fields:
  "map rowFields (weeklyRows uid w) =
     (let e = localMidnight (zone w) (clock w) 7; c = clock w; k = freshId (missionsTbl w)
      in [(''burnCalories'', Weekly, 50, 1000, 0, False, uid, e, c, k),
          (''noFriedFood'', Weekly, 40, 3, 0, False, uid, e, c, k + 1),
          (''proteinIntake'', Weekly, 45, 50, 0, False, uid, e, c, k + 2)])"
  by (simp add: weeklyRows_list Let_def rowFields_def weeklyMissionTemplates_def)

lemma pointsOf_users: "users w' = users w \<Longrightarrow> pointsOf uid w' = pointsOf uid w"
  by (simp add: pointsOf_def)

lemma filter_credited:
  "filter (\<lambda>u. user_id u = uid) (map (credited uid p) us) =
     map (\<lambda>u. u\<lparr>user_points := Some p\<rparr>) (filter (\<lambda>u. user_id u = uid) us)"
  by (induction us) (simp_all add: credited_def)

lemma pointsOf_credited:
  assumes "pointsOf uid w = Some old" and "users w' = map (credited uid p) (users w)"
  shows "pointsOf uid w' = Some p"
proof -
  obtain u us where "filter (\<lambda>u. user_id u = uid) (users w) = u # us"
    using assms(1) by (auto simp: pointsOf_def split: list.splits)
  then show ?thesis
    by (simp add: pointsOf_def assms(2) filter_credited pointsOrZero_def)
qed

lemma loaded_points: "pointsOf uid w = Some p \<Longrightarrow> userPoints (loaded uid w s) = p"
  by (auto simp: pointsOf_def loaded_def split: list.splits)

lemma loaded_fields [simp]:
  "userId (loaded uid w s) = Some uid" "alerts (loaded uid w s) = alerts s"
  "missions (loaded uid w s) = loadedMissions uid w"
  by (simp_all add: loaded_def)

lemma recorded_completed:
  assumes "m \<in> set (map (recorded i p c) ms)" and "mission_id m = i"
  shows "completed m = c"
proof -
  obtain x where x: "m = recorded i p c x"
    using assms(1) by auto
  show ?thesis
    using recorded_row [of i p c x] assms(2) x by simp
qed

lemma monday_points: "pointsOf ''u1'' monday = Some 5"
  by (simp add: pointsOf_def monday_def pointsOrZero_def)

lemma monday_loads: "loadData (Suc 0) monday initialScreen = Some (monday, mondayScreen)"
  using loadData_settled [OF monday_active(3) monday_signed_in monday_active(1,2), of 0 initialScreen]
  by (simp only: monday_loaded)

lemma monday_find: "find (\<lambda>m. mission_id m = 1) (missions mondayScreen) = Some foodMission"
  by (simp add: mondayScreen_def foodMission_def)

lemma loadData_generates_daily:
  assumes q: "quiet w" and au: "authUser w = Some uid" and z: "expiriesAhead w"
    and nd: "\<not> hasActive Daily uid w"
  shows "\<exists>w1 s1. loadData (Suc (Suc (Suc n))) w s = Some (w1, s1) \<and>
           ofType Daily w1 = ofType Daily w @ dailyRows uid w"
proof -
  let ?reload = "loadData (Suc (Suc n))"
  obtain w1 s1 where r: "loadData (Suc (Suc (Suc n))) w s = Some (w1, s1)"
    using loadData_total [OF q z] by blast
  have c: "checkAndGenerateMissions ?reload uid (loadedMissions uid w) w (loaded uid w s)
             = Some (w1, s1)"
    using loadData_after_check [OF q au r loadData_good] .
  obtain wd sd where g: "generateDailyMissions ?reload uid w (loaded uid w s) = Some (wd, sd)"
    and rowsd: "ofType Daily wd = ofType Daily w @ dailyRows uid w"
    using generateDailyMissions_rows [OF q au z, of n "loaded uid w s"] by blast
  have std: "settles uid (withRows (dailyRows uid w) w) (loaded uid w s) wd sd"
    using g q au loadData_settles [of "withRows (dailyRows uid w) w" uid "Suc (Suc n)"]
    by (simp add: generateDailyMissions_quiet)
  have qd: "quiet wd" and da: "hasActive Daily uid wd"
    using settles_world [OF std] std by (simp_all add: settles_def)
  have aud: "authUser wd = Some uid"
    using settles_world [OF std] au by simp
  have "ofType Daily w1 = ofType Daily wd"
  proof (cases "hasActive Weekly uid w")
    case True
    then have "w1 = wd"
      using c q nd g by (simp add: checkAndGenerateMissions_quiet)
    then show ?thesis by simp
  next
    case False
    let ?ww = "withRows (weeklyRows uid wd) wd"
    have "?reload ?ww sd = Some (w1, s1)"
      using c q nd g False qd
      by (simp add: checkAndGenerateMissions_quiet generateWeeklyMissions_quiet)
    then have "settles uid ?ww sd w1 s1"
      using loadData_settles [of ?ww uid "Suc (Suc n)" sd w1 s1] qd aud by simp
    moreover have "hasActive Daily uid ?ww"
      using hasActive_grows [OF grows_withRows_weekly [OF qd] da] .
    ultimately have "ofType Daily w1 = ofType Daily ?ww"
      by (simp add: settles_def)
    then show ?thesis
      by (simp add: ofType_withRows_weekly)
  qed
  then show ?thesis
    using r rowsd by simp
qed

lemma loadData_generates_weekly:
  assumes q: "quiet w" and au: "authUser w = Some uid" and z: "expiriesAhead w"
    and da: "hasActive Daily uid w" and nw: "\<not> hasActive Weekly uid w"
  shows "\<exists>w1 s1. loadData (Suc (Suc (Suc n))) w s = Some (w1, s1) \<and>
           ofType Weekly w1 = ofType Weekly w @ weeklyRows uid w"
proof -
  let ?reload = "loadData (Suc (Suc n))"
  obtain ww sw where g: "generateWeeklyMissions ?reload uid w (loaded uid w s) = Some (ww, sw)"
    and rowsw: "ofType Weekly ww = ofType Weekly w @ weeklyRows uid w"
    using generateWeeklyMissions_rows [OF q au z, of n "loaded uid w s"] by blast
  have "checkAndGenerateMissions ?reload uid (loadedMissions uid w) w (loaded uid w s)
          = Some (ww, sw)"
    using q da nw g by (simp add: checkAndGenerateMissions_quiet)
  then have "loadData (Suc (Suc (Suc n))) w s = Some (ww, sw)"
    by (rule loadData_of_check [OF q au])
  then show ?thesis
    using rowsw by simp
qed

text \<open>
  On a store without missions one load runs the weekly generator twice: the check of the
  outer load tests the list it fetched before the nested reload generated.
\<close>

lemma loadData_emptyStore:
  "map_option (map mtype \<circ> missionsTbl \<circ> fst) (loadData 3 emptyStore initialScreen) =
     Some [Daily, Daily, Daily, Weekly, Weekly, Weekly, Weekly, Weekly, Weekly]"
  by code_simp

section \<open>Facts about the mission engine for every outcome of the requests\<close>

lemma keeps_refl [simp]: "keeps w w"
  by (simp add: keeps_def)

lemma keeps_trans: "keeps a b \<Longrightarrow> keeps b c \<Longrightarrow> keeps a c"
  by (auto simp: keeps_def)

lemma onlyLoadErrors_refl [simp]: "onlyLoadErrors s s"
  by (auto simp: onlyLoadErrors_def)

lemma onlyLoadErrors_trans: "onlyLoadErrors a b \<Longrightarrow> onlyLoadErrors b c \<Longrightarrow> onlyLoadErrors a c"
  by (auto simp: onlyLoadErrors_def)

lemma request_keeps: "request w = (f, w') \<Longrightarrow> keeps w w'"
  by (auto simp: request_def keeps_def split: list.splits)

lemma getCurrentUser_keeps: "getCurrentUser w = (x, w') \<Longrightarrow> keeps w w'"
  by (auto simp: getCurrentUser_def Let_def dest: request_keeps
      split: prod.splits if_splits option.splits)

lemma getUsers_keeps: "getUsers uid w = (x, w') \<Longrightarrow> keeps w w'"
  by (auto simp: getUsers_def Let_def dest: request_keeps split: prod.splits if_splits)

lemma getMissions_keeps: "getMissions uid w = (x, w') \<Longrightarrow> keeps w w'"
  by (auto simp: getMissions_def Let_def dest: request_keeps split: prod.splits if_splits)

lemma getBadges_keeps: "getBadges uid w = (x, w') \<Longrightarrow> keeps w w'"
  by (auto simp: getBadges_def Let_def dest: request_keeps split: prod.splits if_splits)

lemma insertMission_keeps: "keeps w (snd (insertMission m w))"
  by (auto simp: insertMission_def Let_def keeps_def request_def split: prod.splits list.splits)

lemma insert_fold_keeps:
  "keeps w (fold (\<lambda>template v. snd (insertMission (f template) v)) ts w)"
proof (induction ts arbitrary: w)
  case Nil
  show ?case by simp
next
  case (Cons t ts)
  show ?case
    using keeps_trans [OF insertMission_keeps Cons.IH] by simp
qed

lemma updateMission_world:
  "updateMission i p c w = (e, w') \<Longrightarrow>
   users w' = users w \<and> zone w' = zone w \<and> clock w' = clock w \<and>
   length (faults w') \<le> length (faults w) \<and>
   (e = None \<longrightarrow> \<not> fst (request w) \<and> missionsTbl w' = map (recorded i p c) (missionsTbl w)) \<and>
   (e \<noteq> None \<longrightarrow> fst (request w) \<and> missionsTbl w' = missionsTbl w)"
proof -
  have rec: "(\<lambda>m. if mission_id m = i then m\<lparr>progress := p, completed := c\<rparr> else m)
               = recorded i p c"
    by (auto simp: recorded_def)
  show "updateMission i p c w = (e, w') \<Longrightarrow> ?thesis"
    unfolding updateMission_def rec
    by (auto simp: Let_def request_def split: prod.splits list.splits if_splits)
qed

lemma updateUserPoints_world:
  "updateUserPoints uid p w = (e, w') \<Longrightarrow>
   missionsTbl w' = missionsTbl w \<and> zone w' = zone w \<and> clock w' = clock w \<and>
   length (faults w') \<le> length (faults w)"
  by (auto simp: updateUserPoints_def Let_def request_def split: prod.splits list.splits if_splits)

lemma generateDailyMissions_keeps:
  assumes "keepingReload reload" and "generateDailyMissions reload uid w s = Some (w', s')"
  shows "keeps w w' \<and> onlyLoadErrors s s'"
proof -
  let ?v = "fold (\<lambda>template v. snd (insertMission
      (missionOf uid (localMidnight (zone w) (clock w) 1) (clock w) template) v)) dailyMissionTemplates w"
  have "reload ?v s = Some (w', s')"
    using assms(2) by (simp add: generateDailyMissions_def Let_def)
  then have "keeps ?v w' \<and> onlyLoadErrors s s'"
    using assms(1) by (simp add: keepingReload_def)
  then show ?thesis
    using keeps_trans [OF insert_fold_keeps] by blast
qed

lemma generateWeeklyMissions_keeps:
  assumes "keepingReload reload" and "generateWeeklyMissions reload uid w s = Some (w', s')"
  shows "keeps w w' \<and> onlyLoadErrors s s'"
proof -
  let ?v = "fold (\<lambda>template v. snd (insertMission
      (missionOf uid (localMidnight (zone w) (clock w) 7) (clock w) template) v))
      weeklyMissionTemplates w"
  have "reload ?v s = Some (w', s')"
    using assms(2) by (simp add: generateWeeklyMissions_def Let_def)
  then have "keeps ?v w' \<and> onlyLoadErrors s s'"
    using assms(1) by (simp add: keepingReload_def)
  then show ?thesis
    using keeps_trans [OF insert_fold_keeps] by blast
qed

lemma checkAndGenerateMissions_steps:
  assumes "checkAndGenerateMissions reload uid currentMissions w s = Some (w', s')"
  obtains w1 s1 where
    "(w1, s1) = (w, s) \<or> generateDailyMissions reload uid w s = Some (w1, s1)"
    "(w', s') = (w1, s1) \<or> generateWeeklyMissions reload uid w1 s1 = Some (w', s')"
proof -
  let ?first = "if length (filter (\<lambda>mission. mtype mission = Daily \<and>
        startOfLocalDay w \<le> expiresAt mission) currentMissions) = 0
      then generateDailyMissions reload uid w s else Some (w, s)"
  obtain w1 s1 where f: "?first = Some (w1, s1)"
    using assms by (cases ?first) (auto simp: checkAndGenerateMissions_def Let_def)
  have a: "(w1, s1) = (w, s) \<or> generateDailyMissions reload uid w s = Some (w1, s1)"
    using f by (auto split: if_splits)
  have b: "(w', s') = (w1, s1) \<or> generateWeeklyMissions reload uid w1 s1 = Some (w', s')"
    using assms f by (auto simp: checkAndGenerateMissions_def Let_def split: if_splits)
  show ?thesis
    using that [OF a b] .
qed

lemma checkAndGenerateMissions_keeps:
  assumes k: "keepingReload reload"
    and run: "checkAndGenerateMissions reload uid currentMissions w s = Some (w', s')"
  shows "keeps w w' \<and> onlyLoadErrors s s'"
proof -
  obtain w1 s1 where
    a: "(w1, s1) = (w, s) \<or> generateDailyMissions reload uid w s = Some (w1, s1)" and
    b: "(w', s') = (w1, s1) \<or> generateWeeklyMissions reload uid w1 s1 = Some (w', s')"
    using checkAndGenerateMissions_steps [OF run] by blast
  have first: "keeps w w1 \<and> onlyLoadErrors s s1"
    using a generateDailyMissions_keeps [OF k, of uid w s w1 s1] by auto
  have second: "keeps w1 w' \<and> onlyLoadErrors s1 s'"
    using b generateWeeklyMissions_keeps [OF k, of uid w1 s1 w' s'] by auto
  show ?thesis
    using first second keeps_trans onlyLoadErrors_trans by blast
qed

lemma loadData_keeping: "keepingReload (loadData n)"
proof (induction n)
  case 0
  show ?case by (simp add: keepingReload_def)
next
  case (Suc n)
  note chk = checkAndGenerateMissions_keeps [OF Suc.IH, unfolded keeps_def onlyLoadErrors_def]
  show ?case
    unfolding keepingReload_def
  proof (intro allI impI)
    fix w s w' s'
    assume run: "loadData (Suc n) w s = Some (w', s')"
    show "keeps w w' \<and> onlyLoadErrors s s'"
      using run
      by (auto simp: Let_def keeps_def onlyLoadErrors_def alert_def
          split: prod.splits if_splits option.splits list.splits
          dest!: getCurrentUser_keeps [unfolded keeps_def] getUsers_keeps [unfolded keeps_def]
            getMissions_keeps [unfolded keeps_def] getBadges_keeps [unfolded keeps_def] chk)
  qed
qed

lemma loadData_keeps_any:
  "loadData n w s = Some (w', s') \<Longrightarrow> keeps w w' \<and> onlyLoadErrors s s'"
  using loadData_keeping [of n] by (simp add: keepingReload_def)

lemma getCurrentUser_pops:
  "faults w \<noteq> [] \<Longrightarrow> getCurrentUser w = (x, w') \<Longrightarrow>
   users w' = users w \<and> zone w' = zone w \<and> clock w' = clock w \<and>
   length (faults w') < length (faults w)"
  by (auto simp: getCurrentUser_def request_def Let_def
      split: list.splits prod.splits if_splits option.splits)

lemma keeps_ahead: "keeps w w' \<Longrightarrow> expiriesAhead w' = expiriesAhead w"
  using expiriesAhead_same [of w' w] by (simp add: keeps_def)

lemma generateDailyMissions_returns:
  assumes "expiriesAhead w"
    and "\<And>v t. length (faults v) \<le> length (faults w) \<Longrightarrow> expiriesAhead v \<Longrightarrow>
           \<exists>r. reload v t = Some r"
  shows "\<exists>r. generateDailyMissions reload uid w s = Some r"
proof -
  let ?v = "fold (\<lambda>template v. snd (insertMission
      (missionOf uid (localMidnight (zone w) (clock w) 1) (clock w) template) v))
      dailyMissionTemplates w"
  have k: "keeps w ?v"
    by (rule insert_fold_keeps)
  have "length (faults ?v) \<le> length (faults w)" and "expiriesAhead ?v"
    using k keeps_ahead [OF k] assms(1) by (simp_all add: keeps_def)
  then have "\<exists>r. reload ?v s = Some r"
    by (rule assms(2))
  then show ?thesis
    by (simp add: generateDailyMissions_def Let_def)
qed

lemma generateWeeklyMissions_returns:
  assumes "expiriesAhead w"
    and "\<And>v t. length (faults v) \<le> length (faults w) \<Longrightarrow> expiriesAhead v \<Longrightarrow>
           \<exists>r. reload v t = Some r"
  shows "\<exists>r. generateWeeklyMissions reload uid w s = Some r"
proof -
  let ?v = "fold (\<lambda>template v. snd (insertMission
      (missionOf uid (localMidnight (zone w) (clock w) 7) (clock w) template) v))
      weeklyMissionTemplates w"
  have k: "keeps w ?v"
    by (rule insert_fold_keeps)
  have "length (faults ?v) \<le> length (faults w)" and "expiriesAhead ?v"
    using k keeps_ahead [OF k] assms(1) by (simp_all add: keeps_def)
  then have "\<exists>r. reload ?v s = Some r"
    by (rule assms(2))
  then show ?thesis
    by (simp add: generateWeeklyMissions_def Let_def)
qed

lemma checkAndGenerateMissions_returns:
  assumes k: "keepingReload reload" and a: "expiriesAhead w"
    and r: "\<And>v t. length (faults v) \<le> length (faults w) \<Longrightarrow> expiriesAhead v \<Longrightarrow>
              \<exists>r. reload v t = Some r"
  shows "\<exists>r. checkAndGenerateMissions reload uid currentMissions w s = Some r"
proof -
  let ?first = "if length (filter (\<lambda>mission. mtype mission = Daily \<and>
        startOfLocalDay w \<le> expiresAt mission) currentMissions) = 0
      then generateDailyMissions reload uid w s else Some (w, s)"
  have "\<exists>r. ?first = Some r"
    using generateDailyMissions_returns [OF a, of reload uid s] r by simp
  then obtain w1 s1 where f: "?first = Some (w1, s1)"
    by auto
  have "(w1, s1) = (w, s) \<or> generateDailyMissions reload uid w s = Some (w1, s1)"
    using f by (auto split: if_splits)
  then have k1: "keeps w w1"
    using generateDailyMissions_keeps [OF k, of uid w s w1 s1] by auto
  have a1: "expiriesAhead w1"
    using keeps_ahead [OF k1] a by simp
  have "\<And>v t. length (faults v) \<le> length (faults w1) \<Longrightarrow> expiriesAhead v \<Longrightarrow>
      \<exists>r. reload v t = Some r"
    using r k1 by (simp add: keeps_def)
  then have "\<exists>r. generateWeeklyMissions reload uid w1 s1 = Some r"
    by (rule generateWeeklyMissions_returns [OF a1])
  then show ?thesis
    using f by (auto simp: checkAndGenerateMissions_def Let_def)
qed

lemma loadData_returns_any:
  "expiriesAhead w \<Longrightarrow> length (faults w) + 3 \<le> n \<Longrightarrow> \<exists>r. loadData n w s = Some r"
proof (induction n arbitrary: w s)
  case 0
  then show ?case by simp
next
  case (Suc n)
  note z = Suc.prems(1)
  show ?case
  proof (cases "faults w = []")
    case True
    obtain m where "Suc n = Suc (Suc (Suc m))"
      using Suc.prems(2) by (cases n; cases "n - 1") auto
    then show ?thesis
      using loadData_total [of w m s] True z by (auto simp: quiet_def)
  next
    case False
    have chk: "\<exists>r. checkAndGenerateMissions (loadData n) uid cur v t = Some r"
      if "length (faults v) < length (faults w)" and "zone v = zone w" and "clock v = clock w"
      for uid cur and v :: world and t
    proof (rule checkAndGenerateMissions_returns [OF loadData_keeping])
      show "expiriesAhead v"
        using expiriesAhead_same [OF that(2,3)] z by simp
    next
      fix v' :: world and t' :: screen
      assume "length (faults v') \<le> length (faults v)" and "expiriesAhead v'"
      then show "\<exists>r. loadData n v' t' = Some r"
        using Suc.IH [of v' t'] that(1) Suc.prems(2) by simp
    qed
    show ?thesis
    proof (cases "loadData (Suc n) w s")
      case (Some r)
      then show ?thesis by blast
    next
      case None
      have stuck: "zone v = zone w \<longrightarrow> clock v = clock w \<longrightarrow>
          length (faults w) \<le> length (faults v)"
        if "checkAndGenerateMissions (loadData n) uid cur v t = None"
        for uid cur and v :: world and t
        using chk [of v uid cur t] that by (cases "length (faults v) < length (faults w)") auto
      have False
        using None False
        by (auto simp: Let_def keeps_def
            split: prod.splits if_splits option.splits list.splits
            dest!: getCurrentUser_pops getUsers_keeps [unfolded keeps_def]
              getMissions_keeps [unfolded keeps_def] stuck)
      then show ?thesis ..
    qed
  qed
qed

lemma completed_not_credited:
  assumes fm: "find (\<lambda>m. mission_id m = missionId) (missions s) = Some mission"
    and c: "completed mission" and z: "expiriesAhead w"
    and fuel: "length (faults w) + 3 \<le> n"
  shows "\<exists>w' s'. updateMissionProgress (loadData n) missionId p w s = Some (w', s') \<and>
           users w' = users w \<and>
           set (alerts s') \<subseteq> {LoadDataError, UpdateProgressError} \<union> set (alerts s)"
proof -
  obtain e w1 where u: "updateMission missionId p (target mission \<le> p) w = (e, w1)"
    by (cases "updateMission missionId p (target mission \<le> p) w") auto
  have k1: "users w1 = users w" "length (faults w1) \<le> length (faults w)" "expiriesAhead w1"
    using updateMission_world [OF u] z expiriesAhead_same [of w1 w] by simp_all
  show ?thesis
  proof (cases e)
    case (Some err)
    then have "updateMissionProgress (loadData n) missionId p w s
                 = Some (w1, alert UpdateProgressError s)"
      using fm u by (simp add: updateMissionProgress_def Let_def)
    then show ?thesis
      using k1 by (auto simp: alert_def)
  next
    case None
    have run: "updateMissionProgress (loadData n) missionId p w s = loadData n w1 s"
      using fm u c None by (simp add: updateMissionProgress_def Let_def)
    have "length (faults w1) + 3 \<le> n"
      using k1(2) fuel by simp
    then obtain w' s' where r: "loadData n w1 s = Some (w', s')"
      using loadData_returns_any [of w1 n s] k1(3) by auto
    have "users w' = users w1" "set (alerts s') \<subseteq> insert LoadDataError (set (alerts s))"
      using loadData_keeps_any [OF r] by (simp_all add: keeps_def onlyLoadErrors_def)
    then show ?thesis
      using run r k1(1) by auto
  qed
qed

lemma raw_progress_any:
  assumes fm: "find (\<lambda>m. mission_id m = missionId) (missions s) = Some mission"
    and ok: "\<not> fst (request w)" and z: "expiriesAhead w"
    and fuel: "length (faults w) + 3 \<le> n"
  shows "\<exists>w' s'. updateMissionProgress (loadData n) missionId p w s = Some (w', s') \<and>
           take (length (missionsTbl w)) (missionsTbl w') =
             map (recorded missionId p (target mission \<le> p)) (missionsTbl w)"
proof -
  let ?c = "target mission \<le> p"
  obtain e w1 where u: "updateMission missionId p ?c w = (e, w1)"
    by (cases "updateMission missionId p ?c w") auto
  have e: "e = None"
    using updateMission_world [OF u] ok by (cases e) auto
  have w1: "missionsTbl w1 = map (recorded missionId p ?c) (missionsTbl w)"
    "length (faults w1) \<le> length (faults w)" "expiriesAhead w1"
    using updateMission_world [OF u] e z expiriesAhead_same [of w1 w] by simp_all
  have "\<exists>wX sX. updateMissionProgress (loadData n) missionId p w s = loadData n wX sX \<and>
          missionsTbl wX = missionsTbl w1 \<and> expiriesAhead wX \<and>
          length (faults wX) \<le> length (faults w1)"
  proof (cases "?c \<and> \<not> completed mission \<and> userId s \<noteq> None \<and> userId s \<noteq> Some []")
    case True
    then obtain uid where uid: "userId s = Some uid" "uid \<noteq> []"
      by auto
    obtain e2 w2 where c: "updateUserPoints uid (userPoints s + points mission) w1 = (e2, w2)"
      by (cases "updateUserPoints uid (userPoints s + points mission) w1") auto
    have "updateMissionProgress (loadData n) missionId p w s =
            loadData n w2 (alert (MissionCompleted (points mission))
                             (s\<lparr>userPoints := userPoints s + points mission\<rparr>))"
      using fm u e True uid c by (simp add: updateMissionProgress_def Let_def)
    then show ?thesis
      using updateUserPoints_world [OF c] w1(3) expiriesAhead_same [of w2 w1] by auto
  next
    case False
    then have "updateMissionProgress (loadData n) missionId p w s = loadData n w1 s"
      using fm u e by (auto simp: updateMissionProgress_def Let_def split: option.splits)
    then show ?thesis using w1(3) by blast
  qed
  then obtain wX sX where
    run: "updateMissionProgress (loadData n) missionId p w s = loadData n wX sX"
    and tX: "missionsTbl wX = missionsTbl w1" and zX: "expiriesAhead wX"
    and fX: "length (faults wX) \<le> length (faults w1)"
    by blast
  have "length (faults wX) + 3 \<le> n"
    using fX w1(2) fuel by simp
  then obtain w' s' where r: "loadData n wX sX = Some (w', s')"
    using loadData_returns_any [of wX n sX] zX by auto
  obtain extra where "missionsTbl w' = missionsTbl wX @ extra"
    using loadData_keeps_any [OF r] by (auto simp: keeps_def)
  then have "take (length (missionsTbl w)) (missionsTbl w') =
      map (recorded missionId p ?c) (missionsTbl w)"
    by (simp add: tX w1(1))
  then show ?thesis
    using run r by simp
qed

lemma updateMissionProgress_zone:
  assumes "updateMissionProgress (loadData n) missionId p w s = Some (w', s')"
  shows "zone w' = zone w"
proof (cases "find (\<lambda>m. mission_id m = missionId) (missions s)")
  case None
  then show ?thesis
    using assms by (simp add: updateMissionProgress_def)
next
  case (Some mission)
  obtain e w1 where u: "updateMission missionId p (target mission \<le> p) w = (e, w1)"
    by (cases "updateMission missionId p (target mission \<le> p) w") auto
  have z1: "zone w1 = zone w"
    using updateMission_world [OF u] by simp
  have step: "zone w' = zone v" if "loadData n v t = Some (w', s')" for v t
    using loadData_keeps_any [OF that] by (simp add: keeps_def)
  have credit: "zone v = zone w" if "updateUserPoints uid q w1 = (x, v)" for uid q x v
    using updateUserPoints_world [OF that] z1 by simp
  show ?thesis
    using assms Some u z1 step
    by (auto simp: updateMissionProgress_def Let_def alert_def dest: credit
        split: if_splits option.splits prod.splits)
qed

lemma first_report_credits_second_not:
  assumes q0: "quiet w0" and au0: "authUser w0 = Some uid" and z0: "expiriesAhead w0"
    and ne: "uid \<noteq> []"
    and ld: "loadData k w0 s0 = Some (w, s)"
    and fm: "find (\<lambda>m. mission_id m = missionId) (missions s) = Some mission"
    and nc: "\<not> completed mission" and tg: "target mission \<le> p1"
    and pts: "pointsOf uid w = Some pts"
  shows "\<exists>w1 s1 w2 s2.
     updateMissionProgress (loadData (Suc (Suc (Suc n)))) missionId p1 w s = Some (w1, s1) \<and>
     updateMissionProgress (loadData (Suc (Suc (Suc n)))) missionId p2 w1 s1 = Some (w2, s2) \<and>
     pointsOf uid w1 = Some (pts + points mission) \<and>
     userPoints s1 = pts + points mission \<and>
     alerts s1 = alerts s @ [MissionCompleted (points mission)] \<and>
     pointsOf uid w2 = Some (pts + points mission) \<and>
     userPoints s2 = pts + points mission \<and>
     alerts s2 = alerts s1"
proof -
  let ?reload = "loadData (Suc (Suc (Suc n)))"
  let ?new = "pts + points mission"
  have st0: "settles uid w0 s0 w s"
    using loadData_settles [OF q0 au0 ld] .
  have q: "quiet w" and au: "authUser w = Some uid" and z: "expiriesAhead w"
    using settles_world [OF st0] au0 z0 by simp_all
  have s: "s = loaded uid w s0"
    using st0 by (simp add: settles_def)
  have uid_s: "userId s = Some uid" and ms: "missions s = loadedMissions uid w"
    by (simp_all add: s)
  have up: "userPoints s = pts"
    using loaded_points [OF pts] by (simp add: s)
  have in_tbl: "mission \<in> set (missionsTbl w)" and mid: "mission_id mission = missionId"
    using find_Some_in [OF fm] by (simp_all add: ms loadedMissions_set)
  define wA where "wA = w\<lparr>missionsTbl := map (recorded missionId p1 True) (missionsTbl w),
                          users := map (credited uid ?new) (users w)\<rparr>"
  define sA where "sA = alert (MissionCompleted (points mission)) (s\<lparr>userPoints := ?new\<rparr>)"
  have run1: "updateMissionProgress ?reload missionId p1 w s = ?reload wA sA"
    unfolding updateMissionProgress_quiet [OF q fm] Let_def wA_def sA_def
    using tg nc ne by (simp add: uid_s up)
  have qA: "quiet wA" and auA: "authUser wA = Some uid" and zA: "expiriesAhead wA"
    using q au z expiriesAhead_same [of wA w] by (simp_all add: wA_def quiet_def)
  obtain w1 s1 where r1: "?reload wA sA = Some (w1, s1)"
    using loadData_total [OF qA zA] by blast
  have st1: "settles uid wA sA w1 s1"
    using loadData_settles [OF qA auA r1] .
  have q1: "quiet w1" and au1: "authUser w1 = Some uid" and us1: "users w1 = users wA"
    and z1: "expiriesAhead w1"
    using settles_world [OF st1] auA zA by simp_all
  have s1: "s1 = loaded uid w1 sA"
    using st1 by (simp add: settles_def)
  have ptsA: "pointsOf uid wA = Some ?new"
    by (rule pointsOf_credited [OF pts]) (simp add: wA_def)
  have pts1: "pointsOf uid w1 = Some ?new"
    using pointsOf_users [OF us1] ptsA by simp
  have up1: "userPoints s1 = ?new"
    using loaded_points [OF pts1] by (simp add: s1)
  have al1: "alerts s1 = alerts s @ [MissionCompleted (points mission)]"
    by (simp add: s1 sA_def alert_def)
  have second: "\<exists>w2 s2. updateMissionProgress ?reload missionId p2 w1 s1 = Some (w2, s2) \<and>
      users w2 = users w1 \<and> s2 = loaded uid w2 s1"
  proof (cases "find (\<lambda>m. mission_id m = missionId) (missions s1)")
    case None
    then have "updateMissionProgress ?reload missionId p2 w1 s1 = Some (w1, s1)"
      by (simp add: updateMissionProgress_def)
    moreover have "s1 = loaded uid w1 s1"
      using s1 loaded_idem [of uid w1 sA] by simp
    ultimately show ?thesis by blast
  next
    case (Some m2)
    have m2: "m2 \<in> set (missionsTbl w1)" "mission_id m2 = missionId"
      using find_Some_in [OF Some] by (simp_all add: s1 loadedMissions_set)
    obtain extra where e: "missionsTbl w1 = missionsTbl wA @ extra"
      "\<forall>m\<in>set extra. maxId (missionsTbl wA) < mission_id m"
      using st1 by (auto simp: settles_def grows_def)
    have "maxId (missionsTbl wA) = maxId (missionsTbl w)"
      by (simp add: wA_def)
    then have "missionId \<le> maxId (missionsTbl wA)"
      using maxId_ge [OF in_tbl] mid by simp
    then have "m2 \<notin> set extra"
      using e(2) m2(2) by fastforce
    then have "m2 \<in> set (map (recorded missionId p1 True) (missionsTbl w))"
      using m2(1) e(1) by (simp add: wA_def)
    then have already: "completed m2"
      using recorded_completed [of m2 missionId p1 True "missionsTbl w"] m2(2) by simp
    define wB where
      "wB = w1\<lparr>missionsTbl := map (recorded missionId p2 (target m2 \<le> p2)) (missionsTbl w1)\<rparr>"
    have run2: "updateMissionProgress ?reload missionId p2 w1 s1 = ?reload wB s1"
      unfolding updateMissionProgress_quiet [OF q1 Some] Let_def wB_def
      using already by simp
    have qB: "quiet wB" and auB: "authUser wB = Some uid" and usB: "users wB = users w1"
      and zB: "expiriesAhead wB"
      using q1 au1 z1 expiriesAhead_same [of wB w1] by (simp_all add: wB_def quiet_def)
    obtain w2 s2 where r2: "?reload wB s1 = Some (w2, s2)"
      using loadData_total [OF qB zB] by blast
    have st2: "settles uid wB s1 w2 s2"
      using loadData_settles [OF qB auB r2] .
    have "users w2 = users w1"
      using settles_world [OF st2] usB by simp
    moreover have "s2 = loaded uid w2 s1"
      using st2 by (simp add: settles_def)
    ultimately show ?thesis
      using run2 r2 by simp
  qed
  then obtain w2 s2 where
    r2: "updateMissionProgress ?reload missionId p2 w1 s1 = Some (w2, s2)"
    and us2: "users w2 = users w1" and s2: "s2 = loaded uid w2 s1"
    by blast
  have pts2: "pointsOf uid w2 = Some ?new"
    using pointsOf_users [OF us2] pts1 by simp
  have up2: "userPoints s2 = ?new"
    using loaded_points [OF pts2] by (simp add: s2)
  have al2: "alerts s2 = alerts s1"
    by (simp add: s2)
  have c1: "updateMissionProgress ?reload missionId p1 w s = Some (w1, s1)"
    using run1 r1 by simp
  show ?thesis
    using c1 r2 pts1 up1 al1 pts2 up2 al2 by blast
qed

section \<open>Claims on the home screen and the weight tracking screen\<close>

text \<open>
  Claim C4. For every collection of food and exercise entries, after a successful load the
  day's calories in are the sum of \<open>calories\<close> over the foods dated today, the calories out
  the sum of \<open>caloriesBurned\<close> over the exercises dated today, the net calories are their
  difference, and the status is surplus exactly when more came in than went out (so
  equality gives deficit).
\<close>

theorem daily_aggregate:
  "let h' = loadDashboardData z t (rows foods) (rows exercises) weightR h
   in caloriesIn h' =
        sum_list (map calories (filter (\<lambda>food. foodDate food = toISODate t) foods)) \<and>
      caloriesOut h' =
        sum_list (map caloriesBurned
                    (filter (\<lambda>exercise. exerciseDate exercise = toISODate t) exercises)) \<and>
      netCalories h' = caloriesIn h' - caloriesOut h' \<and>
      calorieStatus h' = (if caloriesOut h' < caloriesIn h' then Surplus else Deficit)"
  using loadDashboardData_rows [OF refl, of z t foods exercises weightR h]
  by (simp add: Let_def totalCaloriesIn_def totalCaloriesOut_def todayFoods_def
      todayExercises_def filterOrEmpty_def foldl_plus_sum_list)

theorem daily_aggregate_witness:
  "let h' = loadDashboardData (fixedOffset 0) jan8_1am (rows [rice, omelette]) (rows [jog])
              (rows []) initialHome
   in caloriesIn h' = 800 \<and> caloriesOut h' = 200 \<and> netCalories h' = 600 \<and>
      calorieStatus h' = Surplus"
  using daily_aggregate [of "fixedOffset 0" jan8_1am "[rice, omelette]" "[jog]" "rows []"
      initialHome]
  by (simp add: Let_def toISODate_def msPerDay_def jan8_1am_def rice_def omelette_def jog_def)

text \<open>
  The weekly series where the zone applies one offset throughout the week: each series has
  7 elements, the sums of the 7 dates ending today, oldest first, and a day without
  entries contributes 0.
\<close>

lemma weekly_series_same_offset:
  assumes "\<forall>i<7. sameOffset z t i"
  shows "let h' = loadDashboardData z t (rows foods) (rows exercises) weightR h;
       today = toISODate t;
       week = [today - 6, today - 5, today - 4, today - 3, today - 2, today - 1, today]
   in length (weeklyIn h') = 7 \<and> length (weeklyOut h') = 7 \<and>
      weeklyIn h' =
        map (\<lambda>d. sum_list (map calories (filter (\<lambda>food. foodDate food = d) foods))) week \<and>
      weeklyOut h' =
        map (\<lambda>d. sum_list (map caloriesBurned
                             (filter (\<lambda>exercise. exerciseDate exercise = d) exercises))) week \<and>
      (\<forall>k<7. (\<forall>food\<in>set foods. foodDate food \<noteq> week ! k) \<longrightarrow> weeklyIn h' ! k = 0) \<and>
      (\<forall>k<7. (\<forall>exercise\<in>set exercises. exerciseDate exercise \<noteq> week ! k) \<longrightarrow>
              weeklyOut h' ! k = 0)"
proof -
  define h' where "h' = loadDashboardData z t (rows foods) (rows exercises) weightR h"
  define week where "week = [toISODate t - 6, toISODate t - 5, toISODate t - 4,
    toISODate t - 3, toISODate t - 2, toISODate t - 1, toISODate t]"
  have win: "weeklyIn h' =
      map (\<lambda>d. sum_list (map calories (filter (\<lambda>food. foodDate food = d) foods))) week"
    using loadDashboardData_rows [OF h'_def [symmetric]]
    by (simp add: weeklyInSeries_def last7Days_dates [OF assms] filterOrEmpty_def
        foldl_plus_sum_list week_def)
  have wout: "weeklyOut h' =
      map (\<lambda>d. sum_list (map caloriesBurned
                           (filter (\<lambda>exercise. exerciseDate exercise = d) exercises))) week"
    using loadDashboardData_rows [OF h'_def [symmetric]]
    by (simp add: weeklyOutSeries_def last7Days_dates [OF assms] filterOrEmpty_def
        foldl_plus_sum_list week_def)
  have len: "length week = 7"
    by (simp add: week_def)
  have zin: "weeklyIn h' ! k = 0"
    if "k < 7" "\<forall>food\<in>set foods. foodDate food \<noteq> week ! k" for k
  proof -
    have "filter (\<lambda>food. foodDate food = week ! k) foods = []"
      using that(2) by (simp add: filter_empty_conv)
    then show ?thesis using that(1) len by (simp add: win)
  qed
  have zout: "weeklyOut h' ! k = 0"
    if "k < 7" "\<forall>e\<in>set exercises. exerciseDate e \<noteq> week ! k" for k
  proof -
    have "filter (\<lambda>e. exerciseDate e = week ! k) exercises = []"
      using that(2) by (simp add: filter_empty_conv)
    then show ?thesis using that(1) len by (simp add: wout)
  qed
  show ?thesis
    unfolding Let_def h'_def [symmetric] week_def [symmetric]
    using win wout len zin zout by simp
qed

lemma weekly_series_length:
  "length (weeklyIn (loadDashboardData z t (rows foods) (rows exercises) weightR h)) = 7 \<and>
   length (weeklyOut (loadDashboardData z t (rows foods) (rows exercises) weightR h)) = 7"
  using loadDashboardData_rows [OF refl, of z t foods exercises weightR h]
  by (simp add: weeklyInSeries_def weeklyOutSeries_def last7Days_def)

text \<open>
  Claim C5: each weekly series has one element per calendar date of the 7 dates ending
  today, oldest first, each the sum of that day's entries. The code steps back by local
  calendar days (\<open>setDate(getDate() - i)\<close>) and then takes the UTC date of each instant. In
  New York on 10 March 2024 at 19:30 local time (23:30 UTC, today is 10 March in UTC) the
  step back by one local day lands on 9 March 19:30 at UTC-5, which is 10 March 00:30 UTC:
  the dates are 5 to 9 March and 10 March twice, 4 March is missing. With a food of
  300 kcal dated 4 March and one of 500 kcal dated 10 March the series is
  \<open>[0, 0, 0, 0, 0, 500, 500]\<close>, where the sums of the 7 dates ending today are
  \<open>[300, 0, 0, 0, 0, 0, 500]\<close>.
\<close>

theorem weekly_series_clock_change:
  "let h' = loadDashboardData newYorkMarch2024 mar10_2330 (rows [bread, soup]) (rows [])
              (rows []) initialHome;
       today = toISODate mar10_2330;
       week = [today - 6, today - 5, today - 4, today - 3, today - 2, today - 1, today]
   in today = 19792 \<and>
      last7Days newYorkMarch2024 mar10_2330 = [19787, 19788, 19789, 19790, 19791, 19792, 19792] \<and>
      weeklyIn h' = [0, 0, 0, 0, 0, 500, 500] \<and>
      map (\<lambda>d. sum_list (map calories (filter (\<lambda>food. foodDate food = d) [bread, soup]))) week
        = [300, 0, 0, 0, 0, 0, 500]"
proof -
  have steps: "[0..<7] = [0, 1, 2, 3, 4, 5, 6::nat]"
    by (simp add: upt_rec)
  have dates: "last7Days newYorkMarch2024 mar10_2330 =
      [19787, 19788, 19789, 19790, 19791, 19792, 19792]"
    by (simp add: last7Days_def steps toISODate_def daysBefore_def utcOf_def localTime_def
        newYorkMarch2024_def mar10_2330_def msPerDay_def)
  have today: "toISODate mar10_2330 = 19792"
    by (simp add: toISODate_def mar10_2330_def msPerDay_def)
  have win: "weeklyIn (loadDashboardData newYorkMarch2024 mar10_2330 (rows [bread, soup])
              (rows []) (rows []) initialHome) = [0, 0, 0, 0, 0, 500, 500]"
    by (simp add: loadDashboardData_def rows_def Let_def weeklyInSeries_def dates
        filterOrEmpty_def bread_def soup_def)
  show ?thesis
    unfolding Let_def today win dates
    by (simp add: bread_def soup_def)
qed




text \<open>
  Claim C3, as stated: with fewer than two observations the classifier yields none of
  increasing, decreasing, stagnant. The home screen's trend state has no such value and
  starts as stagnant, which is what it shows after a load with a single weight record.
\<close>

theorem trend_classifier_counterexample:
  "length [weighJan8] < 2 \<and>
   weightTrend (loadDashboardData (fixedOffset 0) jan8_1am (rows []) (rows []) (rows [weighJan8])
                  initialHome)
     = Stagnant"
  by (simp add: loadDashboardData_def rows_def Let_def homeTrend_def initialHome_def)

text \<open>
  Claim C3, amended. For every list of weight records sorted newest first: with two or
  more records both screens set the trend to decreasing if the newest weight is below the
  one before it, increasing if it is above, stagnant if they are equal; with fewer than two
  records both screens leave their trend state as it was, which on the weight tracking
  screen is initially \<open>null\<close> (no trend) and on the home screen initially stagnant.
\<close>

theorem trend_classifier:
  assumes "sorted (map (\<lambda>r. - weightDate r) ws)"
  shows "trackingTrend ws old =
           (if length ws < 2 then old
            else if weight (ws ! 0) < weight (ws ! 1) then Some Decreasing
            else if weight (ws ! 1) < weight (ws ! 0) then Some Increasing
            else Some Stagnant) \<and>
         weightTrend (loadDashboardData z t (rows foods) (rows exercises) (rows ws) h) =
           (if length ws < 2 then weightTrend h
            else if weight (ws ! 0) < weight (ws ! 1) then Decreasing
            else if weight (ws ! 1) < weight (ws ! 0) then Increasing
            else Stagnant) \<and>
         initialTrackingTrend = None \<and> weightTrend initialHome = Stagnant"
proof -
  have same: "sortNewestFirst ws = ws"
    using assms by (simp add: sortNewestFirst_def sort_key_id_if_sorted)
  have pick: "(case ws of latest # previous # _ \<Rightarrow> f latest previous | _ \<Rightarrow> d)
                = f (ws ! 0) (ws ! 1)"
    if "2 \<le> length ws" for f :: "WeightRecord \<Rightarrow> WeightRecord \<Rightarrow> 'b" and d
    using that by (cases ws; cases "tl ws") auto
  have tracking: "trackingTrend ws old =
      (if length ws < 2 then old
       else if weight (ws ! 0) < weight (ws ! 1) then Some Decreasing
       else if weight (ws ! 1) < weight (ws ! 0) then Some Increasing
       else Some Stagnant)"
    by (simp add: trackingTrend_def same Let_def pick)
  have home: "homeTrend (Some ws) (weightTrend h) =
      (if length ws < 2 then weightTrend h
       else if weight (ws ! 0) < weight (ws ! 1) then Decreasing
       else if weight (ws ! 1) < weight (ws ! 0) then Increasing
       else Stagnant)"
    by (simp add: homeTrend_def same pick)
  show ?thesis
    using tracking home
    by (simp only: loadDashboardData_trend initialTrackingTrend_def initialHome_def
        home.simps simp_thms)
qed

theorem trend_classifier_witness:
  "sorted (map (\<lambda>r. - weightDate r) [weighJan8, weighJan1]) \<and>
   trackingTrend [weighJan8, weighJan1] None = Some Decreasing \<and>
   weightTrend (loadDashboardData (fixedOffset 0) jan8_1am (rows []) (rows [])
                  (rows [weighJan8, weighJan1]) initialHome) = Decreasing \<and>
   trackingTrend [weighJan8] None = None"
  using trend_classifier [of "[weighJan8, weighJan1]" None "fixedOffset 0" jan8_1am "[]" "[]"
      initialHome]
    trend_classifier [of "[weighJan8]" None "fixedOffset 0" jan8_1am "[]" "[]" initialHome]
  by (simp add: weighJan8_def weighJan1_def)

section \<open>Claims on the mission engine\<close>

text \<open>
  In the theorems below a world is \<open>quiet\<close> when every request to the store succeeds, and
  \<open>expiriesAhead\<close> says of the clock and the zone of the device that the expiry the
  generators compute is not before the start of the current local day (otherwise every
  reload would generate again). A bound of three nested reloads is then enough for \<open>loadData\<close> to
  return in such a quiet world (\<open>loadData_total\<close>), and a bound of three more than the number of
  pending request outcomes is enough whatever requests fail (\<open>loadData_returns_any\<close>).
\<close>

text \<open>
  Claim C1: of two reports in a row that reach the target only the first raises the
  user's points, and a report on a mission whose stored \<open>completed\<close> flag is true credits
  nothing. The guard of \<open>updateMissionProgress\<close> tests \<open>mission.completed\<close> of the copy
  held by the screen, which only the reload at the end of a report refreshes. Here the
  user has 5 points and reports progress 2 on the loaded, incomplete mission 1 (target 2,
  10 points); both writes succeed and the first request of the reload fails. The store
  then holds the mission as completed and 15 points, the screen shows the load error and
  keeps the incomplete copy. The second report, with every request succeeding, finds the
  stored flag true and credits again: 25 points and a second completion alert. (When every
  request succeeds the second report credits nothing, \<open>first_report_credits_second_not\<close>,
  and a report on a mission whose loaded copy is completed never credits,
  \<open>completed_not_credited\<close>.)
\<close>

theorem completion_after_failed_reload:
  "let w = monday\<lparr>faults := [False, False, True]\<rparr>;
       first = updateMissionProgress (loadData 5) 1 2 w mondayScreen;
       second = (case first of None \<Rightarrow> None
                 | Some (w1, s1) \<Rightarrow> updateMissionProgress (loadData 5) 1 2 w1 s1)
   in find (\<lambda>m. mission_id m = 1) (missions mondayScreen) = Some foodMission \<and>
      completed foodMission = False \<and> target foodMission = 2 \<and> points foodMission = 10 \<and>
      pointsOf ''u1'' w = Some 5 \<and>
      map_option (\<lambda>(w1, s1). (pointsOf ''u1'' w1, map completed (missionsTbl w1),
                               map completed (missions s1), userPoints s1, alerts s1)) first
        = Some (Some 15, [True, False], [False, False], 15, [MissionCompleted 10, LoadDataError]) \<and>
      map_option (\<lambda>(w2, s2). (pointsOf ''u1'' w2, userPoints s2, alerts s2)) second
        = Some (Some 25, 25, [MissionCompleted 10, LoadDataError, MissionCompleted 10])"
  by code_simp

text \<open>
  Claim C2. The generation check returns at once, with world and screen unchanged, when
  the list it is given holds an unexpired daily and an unexpired weekly mission. For a
  signed-in user in a quiet world, the load that runs the check on the missions it
  fetched returns; where the store already holds an unexpired mission of a type for the
  user, the rows of that type are unchanged, and where it holds one of each type the store
  is unchanged; running the load again on the result, at the same time or at any time on
  the same local day, changes neither the store nor the screen; and ids that were
  distinct stay distinct.
\<close>

theorem ensure_missions_idempotent:
  assumes "quiet w" and "authUser w = Some uid" and "expiriesAhead w"
  shows "(\<forall>reload currentMissions v t.
       (\<exists>m\<in>set currentMissions. mtype m = Daily \<and> startOfLocalDay v \<le> expiresAt m) \<and>
       (\<exists>m\<in>set currentMissions. mtype m = Weekly \<and> startOfLocalDay v \<le> expiresAt m) \<longrightarrow>
       checkAndGenerateMissions reload uid currentMissions v t = Some (v, t)) \<and>
    (\<exists>w1 s1.
     loadData (Suc (Suc (Suc n))) w s = Some (w1, s1) \<and>
     (hasActive Daily uid w \<longrightarrow> ofType Daily w1 = ofType Daily w) \<and>
     (hasActive Weekly uid w \<longrightarrow> ofType Weekly w1 = ofType Weekly w) \<and>
     (hasActive Daily uid w \<and> hasActive Weekly uid w \<longrightarrow> w1 = w) \<and>
     loadData (Suc (Suc (Suc n))) w1 s1 = Some (w1, s1) \<and>
     (\<forall>t'. startOfLocalDay (w1\<lparr>clock := t'\<rparr>) = startOfLocalDay w1 \<longrightarrow>
        loadData (Suc (Suc (Suc n))) (w1\<lparr>clock := t'\<rparr>) s1 = Some (w1\<lparr>clock := t'\<rparr>, s1)) \<and>
     (distinct (map mission_id (missionsTbl w)) \<longrightarrow> distinct (map mission_id (missionsTbl w1))))"
proof -
  obtain w1 s1 where r: "loadData (Suc (Suc (Suc n))) w s = Some (w1, s1)"
    using loadData_total [OF assms(1,3)] by blast
  have st: "settles uid w s w1 s1"
    using loadData_settles [OF assms(1,2) r] .
  have types: "hasActive Daily uid w \<longrightarrow> ofType Daily w1 = ofType Daily w"
    "hasActive Weekly uid w \<longrightarrow> ofType Weekly w1 = ofType Weekly w"
    using st by (simp_all add: settles_def)
  have same: "w1 = w" if "hasActive Daily uid w" "hasActive Weekly uid w"
    using r loadData_settled [OF assms(1,2) that, of "Suc (Suc n)" s] by simp
  have again: "loadData (Suc (Suc (Suc n))) (w1\<lparr>clock := t'\<rparr>) s1 = Some (w1\<lparr>clock := t'\<rparr>, s1)"
    if "startOfLocalDay (w1\<lparr>clock := t'\<rparr>) = startOfLocalDay w1" for t'
    using loadData_again [OF st assms(2) that] .
  have twice: "loadData (Suc (Suc (Suc n))) w1 s1 = Some (w1, s1)"
    using again [of "clock w1"] by simp
  have dist: "distinct (map mission_id (missionsTbl w)) \<longrightarrow> distinct (map mission_id (missionsTbl w1))"
    using grows_distinct [of uid w w1] st by (simp add: settles_def)
  have noop: "checkAndGenerateMissions reload uid currentMissions v t = Some (v, t)"
    if "\<exists>m\<in>set currentMissions. mtype m = Daily \<and> startOfLocalDay v \<le> expiresAt m"
      "\<exists>m\<in>set currentMissions. mtype m = Weekly \<and> startOfLocalDay v \<le> expiresAt m"
    for reload currentMissions v t
    using that by (rule check_noop)
  have run: "\<exists>w1 s1.
     loadData (Suc (Suc (Suc n))) w s = Some (w1, s1) \<and>
     (hasActive Daily uid w \<longrightarrow> ofType Daily w1 = ofType Daily w) \<and>
     (hasActive Weekly uid w \<longrightarrow> ofType Weekly w1 = ofType Weekly w) \<and>
     (hasActive Daily uid w \<and> hasActive Weekly uid w \<longrightarrow> w1 = w) \<and>
     loadData (Suc (Suc (Suc n))) w1 s1 = Some (w1, s1) \<and>
     (\<forall>t'. startOfLocalDay (w1\<lparr>clock := t'\<rparr>) = startOfLocalDay w1 \<longrightarrow>
        loadData (Suc (Suc (Suc n))) (w1\<lparr>clock := t'\<rparr>) s1 = Some (w1\<lparr>clock := t'\<rparr>, s1)) \<and>
     (distinct (map mission_id (missionsTbl w)) \<longrightarrow> distinct (map mission_id (missionsTbl w1)))"
    using r types same again twice dist by blast
  show ?thesis
    using noop run by blast
qed

theorem ensure_missions_idempotent_witness:
  "quiet monday \<and> authUser monday = Some ''u1'' \<and> expiriesAhead monday \<and>
   hasActive Daily ''u1'' monday \<and> hasActive Weekly ''u1'' monday \<and>
   (\<exists>s1. loadData 3 monday mondayScreen = Some (monday, s1) \<and>
      loadData 3 monday s1 = Some (monday, s1)) \<and>
   (\<exists>w1 s1. loadData 3 emptyStore initialScreen = Some (w1, s1) \<and>
      loadData 3 w1 s1 = Some (w1, s1)) \<and>
   (\<exists>w1 s1. loadData 3 newYorkStore initialScreen = Some (w1, s1) \<and>
      loadData 3 w1 s1 = Some (w1, s1))"
proof -
  have three: "loadData 3 = loadData (Suc (Suc (Suc 0)))"
    by (simp only: numeral_3_eq_3)
  have ny: "quiet newYorkStore" "authUser newYorkStore = Some ''u1''"
    by (simp_all add: quiet_def newYorkStore_def)
  have a: "\<exists>s1. loadData (Suc (Suc (Suc 0))) monday mondayScreen = Some (monday, s1) \<and>
      loadData (Suc (Suc (Suc 0))) monday s1 = Some (monday, s1)"
    using ensure_missions_idempotent [OF monday_active(3) monday_signed_in sample_zones(1),
        of 0 mondayScreen] monday_active(1,2)
    by blast
  have b: "\<exists>w1 s1. loadData (Suc (Suc (Suc 0))) emptyStore initialScreen = Some (w1, s1) \<and>
      loadData (Suc (Suc (Suc 0))) w1 s1 = Some (w1, s1)"
    using ensure_missions_idempotent [OF emptyStore_signed_in sample_zones(2), of 0 initialScreen]
    by blast
  have c: "\<exists>w1 s1. loadData (Suc (Suc (Suc 0))) newYorkStore initialScreen = Some (w1, s1) \<and>
      loadData (Suc (Suc (Suc 0))) w1 s1 = Some (w1, s1)"
    using ensure_missions_idempotent [OF ny sample_zones(4), of 0 initialScreen]
    by blast
  show ?thesis
    unfolding three
    using a b c monday_active monday_signed_in sample_zones(1)
    by (simp only: simp_thms)
qed

text \<open>
  Claim C7, as stated: the generated missions expire at now + 1 day. The generator
  computes the expiry from local midnight: generated at 01:00 on 8 January, the daily
  missions expire at 00:00 on 9 January, an hour before now + 1 day.
\<close>

theorem generation_counterexample:
  "map_option (map expiresAt \<circ> ofType Daily \<circ> fst)
     (generateDailyMissions (loadData 3) ''u1'' emptyStore initialScreen)
     = Some [1704758400000, 1704758400000, 1704758400000] \<and>
   clock emptyStore + msPerDay = 1704762000000"
proof -
  have three: "(3::nat) = Suc (Suc (Suc 0))"
    by simp
  obtain w' s' where r:
    "generateDailyMissions (loadData 3) ''u1'' emptyStore initialScreen = Some (w', s')"
    "ofType Daily w' = ofType Daily emptyStore @ dailyRows ''u1'' emptyStore"
    using generateDailyMissions_rows [OF emptyStore_signed_in sample_zones(2),
        of "Suc 0" initialScreen]
    unfolding three by blast
  have e: "map expiresAt (dailyRows ''u1'' emptyStore)
             = [1704758400000, 1704758400000, 1704758400000]"
    by (simp add: dailyRows_list Let_def localMidnight_fixedOffset msPerDay_def emptyStore_def)
  show ?thesis
    by (simp add: r e) (simp add: ofType_def emptyStore_def msPerDay_def)
qed

text \<open>
  Claim C7, amended. For a signed-in user in a quiet world: a run of the daily generator
  returns and adds to the daily rows of the store exactly three rows, one per daily
  template in order, each with the template's title, points and target, progress 0,
  not completed, the user's id, the creation time now, a new id, and the expiry at local
  midnight of the next local calendar day; a run of the weekly generator does the same
  with the three weekly templates and the expiry at local midnight of the seventh local
  calendar day from now. A load that finds no unexpired daily mission of the user adds
  exactly these three daily rows; a load that finds an unexpired daily mission but no
  unexpired weekly one adds exactly these three weekly rows. (How many weekly rows a load
  adds when it finds neither is not part of this statement.)
\<close>

theorem generation_from_templates:
  assumes "quiet w" and "authUser w = Some uid" and "expiriesAhead w"
  shows "(\<exists>w' s'. generateDailyMissions (loadData (Suc (Suc n))) uid w s = Some (w', s') \<and>
            ofType Daily w' = ofType Daily w @ dailyRows uid w) \<and>
         (\<exists>w' s'. generateWeeklyMissions (loadData (Suc (Suc n))) uid w s = Some (w', s') \<and>
            ofType Weekly w' = ofType Weekly w @ weeklyRows uid w) \<and>
         (\<not> hasActive Daily uid w \<longrightarrow>
            (\<exists>w1 s1. loadData (Suc (Suc (Suc n))) w s = Some (w1, s1) \<and>
               ofType Daily w1 = ofType Daily w @ dailyRows uid w)) \<and>
         (hasActive Daily uid w \<and> \<not> hasActive Weekly uid w \<longrightarrow>
            (\<exists>w1 s1. loadData (Suc (Suc (Suc n))) w s = Some (w1, s1) \<and>
               ofType Weekly w1 = ofType Weekly w @ weeklyRows uid w)) \<and>
         map rowFields (dailyRows uid w) =
           (let e = localMidnight (zone w) (clock w) 1; c = clock w; k = freshId (missionsTbl w)
            in [(''logFoodTwice'', Daily, 10, 2, 0, False, uid, e, c, k),
                (''logExerciseOnce'', Daily, 15, 1, 0, False, uid, e, c, k + 1),
                (''consumeFiber'', Daily, 20, 25, 0, False, uid, e, c, k + 2)]) \<and>
         map rowFields (weeklyRows uid w) =
           (let e = localMidnight (zone w) (clock w) 7; c = clock w; k = freshId (missionsTbl w)
            in [(''burnCalories'', Weekly, 50, 1000, 0, False, uid, e, c, k),
                (''noFriedFood'', Weekly, 40, 3, 0, False, uid, e, c, k + 1),
                (''proteinIntake'', Weekly, 45, 50, 0, False, uid, e, c, k + 2)])"
  using generateDailyMissions_rows [OF assms, of n s] generateWeeklyMissions_rows [OF assms, of n s]
    loadData_generates_daily [OF assms, of n s] loadData_generates_weekly [OF assms, of n s]
    dailyRows_fields [of uid w] weeklyRows_fields [of uid w]
  by blast

theorem generation_from_templates_witness:
  "quiet emptyStore \<and> authUser emptyStore = Some ''u1'' \<and> expiriesAhead emptyStore \<and>
   \<not> hasActive Daily ''u1'' emptyStore \<and>
   (\<exists>w1 s1. loadData 3 emptyStore initialScreen = Some (w1, s1) \<and>
      map rowFields (ofType Daily w1) =
        [(''logFoodTwice'', Daily, 10, 2, 0, False, ''u1'', 1704758400000, 1704675600000, 1),
         (''logExerciseOnce'', Daily, 15, 1, 0, False, ''u1'', 1704758400000, 1704675600000, 2),
         (''consumeFiber'', Daily, 20, 25, 0, False, ''u1'', 1704758400000, 1704675600000, 3)]) \<and>
   quiet dailyOnly \<and> authUser dailyOnly = Some ''u1'' \<and> expiriesAhead dailyOnly \<and>
   hasActive Daily ''u1'' dailyOnly \<and> \<not> hasActive Weekly ''u1'' dailyOnly \<and>
   (\<exists>w1 s1. loadData 3 dailyOnly initialScreen = Some (w1, s1) \<and>
      map rowFields (ofType Weekly w1) =
        [(''burnCalories'', Weekly, 50, 1000, 0, False, ''u1'', 1705276800000, 1704675600000, 2),
         (''noFriedFood'', Weekly, 40, 3, 0, False, ''u1'', 1705276800000, 1704675600000, 3),
         (''proteinIntake'', Weekly, 45, 50, 0, False, ''u1'', 1705276800000, 1704675600000, 4)]) \<and>
   quiet newYorkStore \<and> authUser newYorkStore = Some ''u1'' \<and>
   expiriesAhead newYorkStore \<and> \<not> hasActive Daily ''u1'' newYorkStore \<and>
   startOfLocalDay newYorkStore = 1710046800000 \<and>
   (\<exists>w1 s1. loadData 3 newYorkStore initialScreen = Some (w1, s1) \<and>
      map rowFields (ofType Daily w1) =
        [(''logFoodTwice'', Daily, 10, 2, 0, False, ''u1'', 1710129600000, 1710050400000, 1),
         (''logExerciseOnce'', Daily, 15, 1, 0, False, ''u1'', 1710129600000, 1710050400000, 2),
         (''consumeFiber'', Daily, 20, 25, 0, False, ''u1'', 1710129600000, 1710050400000, 3)])"
proof -
  have three: "loadData 3 = loadData (Suc (Suc (Suc 0)))"
    by (simp only: numeral_3_eq_3)
  have e: "localMidnight (zone emptyStore) 1704675600000 1 = 1704758400000"
    "clock emptyStore = 1704675600000" "freshId (missionsTbl emptyStore) = 1"
    "ofType Daily emptyStore = []" "\<not> hasActive Daily ''u1'' emptyStore"
    by (simp_all add: localMidnight_fixedOffset msPerDay_def emptyStore_def freshId_def
        ofType_def hasActive_def)
  have d: "localMidnight (zone dailyOnly) 1704675600000 7 = 1705276800000"
    "clock dailyOnly = 1704675600000" "freshId (missionsTbl dailyOnly) = 2"
    "ofType Weekly dailyOnly = []" "hasActive Daily ''u1'' dailyOnly"
    "\<not> hasActive Weekly ''u1'' dailyOnly" "quiet dailyOnly" "authUser dailyOnly = Some ''u1''"
    by (simp_all add: startOfLocalDay_def localMidnight_fixedOffset msPerDay_def dailyOnly_def
        freshId_def ofType_def hasActive_def quiet_def foodMission_def)
  have y: "localMidnight (zone newYorkStore) 1710050400000 1 = 1710129600000"
    "clock newYorkStore = 1710050400000" "freshId (missionsTbl newYorkStore) = 1"
    "ofType Daily newYorkStore = []" "\<not> hasActive Daily ''u1'' newYorkStore"
    "startOfLocalDay newYorkStore = 1710046800000"
    "quiet newYorkStore" "authUser newYorkStore = Some ''u1''"
    by (simp_all add: startOfLocalDay_def localMidnight_def utcOf_def localTime_def
        newYorkMarch2024_def msPerDay_def newYorkStore_def freshId_def ofType_def hasActive_def
        quiet_def)
  have daily: "\<exists>w1 s1. loadData (Suc (Suc (Suc 0))) emptyStore initialScreen = Some (w1, s1) \<and>
      map rowFields (ofType Daily w1) =
        [(''logFoodTwice'', Daily, 10, 2, 0, False, ''u1'', 1704758400000, 1704675600000, 1),
         (''logExerciseOnce'', Daily, 15, 1, 0, False, ''u1'', 1704758400000, 1704675600000, 2),
         (''consumeFiber'', Daily, 20, 25, 0, False, ''u1'', 1704758400000, 1704675600000, 3)]"
    using generation_from_templates [OF emptyStore_signed_in sample_zones(2), of 0 initialScreen]
    by (auto simp: e Let_def simp del: loadData.simps)
  have weekly: "\<exists>w1 s1. loadData (Suc (Suc (Suc 0))) dailyOnly initialScreen = Some (w1, s1) \<and>
      map rowFields (ofType Weekly w1) =
        [(''burnCalories'', Weekly, 50, 1000, 0, False, ''u1'', 1705276800000, 1704675600000, 2),
         (''noFriedFood'', Weekly, 40, 3, 0, False, ''u1'', 1705276800000, 1704675600000, 3),
         (''proteinIntake'', Weekly, 45, 50, 0, False, ''u1'', 1705276800000, 1704675600000, 4)]"
    using generation_from_templates [OF d(7,8) sample_zones(3), of 0 initialScreen]
    by (auto simp: d Let_def simp del: loadData.simps)
  have newYork: "\<exists>w1 s1. loadData (Suc (Suc (Suc 0))) newYorkStore initialScreen = Some (w1, s1) \<and>
      map rowFields (ofType Daily w1) =
        [(''logFoodTwice'', Daily, 10, 2, 0, False, ''u1'', 1710129600000, 1710050400000, 1),
         (''logExerciseOnce'', Daily, 15, 1, 0, False, ''u1'', 1710129600000, 1710050400000, 2),
         (''consumeFiber'', Daily, 20, 25, 0, False, ''u1'', 1710129600000, 1710050400000, 3)]"
    using generation_from_templates [OF y(7,8) sample_zones(4), of 0 initialScreen]
    by (auto simp: y Let_def simp del: loadData.simps)
  show ?thesis
    unfolding three
    using daily weekly newYork emptyStore_signed_in sample_zones e(5) d(5,6,7,8) y(5,6,7,8)
    by (simp only: simp_thms)
qed

text \<open>
  Claim C8. Whenever the write of the mission row succeeds (the next request to the store
  does not fail; later ones may), a report on a loaded mission returns, and every row that
  was in the store with the reported id then holds the reported progress unclamped and
  \<open>completed = (target \<le> newProgress)\<close>, the target being that of the loaded mission, while
  the other rows are unchanged; the progress rendered for such a row is the minimum of the
  reported progress and the row's target.
\<close>

theorem raw_progress_persisted:
  assumes "find (\<lambda>m. mission_id m = missionId) (missions s) = Some mission"
    and "\<not> fst (request w)" and "expiriesAhead w"
    and "length (faults w) + 3 \<le> n"
  shows "\<exists>w' s'.
     updateMissionProgress (loadData n) missionId newProgress w s = Some (w', s') \<and>
     take (length (missionsTbl w)) (missionsTbl w') =
       map (\<lambda>m. if mission_id m = missionId
                 then m\<lparr>progress := newProgress, completed := (target mission \<le> newProgress)\<rparr>
                 else m) (missionsTbl w) \<and>
     (\<forall>m\<in>set (take (length (missionsTbl w)) (missionsTbl w')). mission_id m = missionId \<longrightarrow>
        progress m = newProgress \<and> completed m = (target mission \<le> newProgress) \<and>
        renderedProgress m = min newProgress (target m))"
proof -
  define c where "c = (target mission \<le> newProgress)"
  obtain w' s' where
    r: "updateMissionProgress (loadData n) missionId newProgress w s = Some (w', s')" and
    tk: "take (length (missionsTbl w)) (missionsTbl w') =
           map (recorded missionId newProgress c) (missionsTbl w)"
    using raw_progress_any [OF assms, of newProgress] unfolding c_def by blast
  have fn: "(\<lambda>m. if mission_id m = missionId
                 then m\<lparr>progress := newProgress, completed := (target mission \<le> newProgress)\<rparr>
                 else m) = recorded missionId newProgress c"
    by (auto simp: recorded_def c_def)
  have rows: "\<forall>m\<in>set (map (recorded missionId newProgress c) (missionsTbl w)).
      mission_id m = missionId \<longrightarrow>
        progress m = newProgress \<and> completed m = c \<and>
        renderedProgress m = min newProgress (target m)"
  proof (intro ballI impI)
    fix m
    assume "m \<in> set (map (recorded missionId newProgress c) (missionsTbl w))"
      and i: "mission_id m = missionId"
    then obtain x where x: "m = recorded missionId newProgress c x"
      by auto
    have "target m = target x"
      by (simp add: x recorded_def)
    then show "progress m = newProgress \<and> completed m = c \<and>
          renderedProgress m = min newProgress (target m)"
      using recorded_row [of missionId newProgress c x] i x by simp
  qed
  have B: "take (length (missionsTbl w)) (missionsTbl w') =
       map (\<lambda>m. if mission_id m = missionId
                 then m\<lparr>progress := newProgress, completed := (target mission \<le> newProgress)\<rparr>
                 else m) (missionsTbl w)"
    unfolding fn by (rule tk)
  have C: "\<forall>m\<in>set (take (length (missionsTbl w)) (missionsTbl w')). mission_id m = missionId \<longrightarrow>
        progress m = newProgress \<and> completed m = (target mission \<le> newProgress) \<and>
        renderedProgress m = min newProgress (target m)"
    unfolding tk using rows by (simp only: c_def)
  show ?thesis
    using r B C by blast
qed

theorem raw_progress_persisted_witness:
  "find (\<lambda>m. mission_id m = 1) (missions mondayScreen) = Some foodMission \<and>
   \<not> fst (request (monday\<lparr>faults := [False, True]\<rparr>)) \<and>
   expiriesAhead (monday\<lparr>faults := [False, True]\<rparr>) \<and>
   length (faults (monday\<lparr>faults := [False, True]\<rparr>)) + 3 \<le> (5::nat) \<and>
   (\<exists>w' s'. updateMissionProgress (loadData 5) 1 5 (monday\<lparr>faults := [False, True]\<rparr>)
              mondayScreen = Some (w', s') \<and>
      take 2 (missionsTbl w') = [foodMission\<lparr>progress := 5, completed := True\<rparr>, burnMission] \<and>
      renderedProgress (foodMission\<lparr>progress := 5, completed := True\<rparr>) = 2)"
proof -
  have h: "\<not> fst (request (monday\<lparr>faults := [False, True]\<rparr>))"
    "expiriesAhead (monday\<lparr>faults := [False, True]\<rparr>)"
    "length (faults (monday\<lparr>faults := [False, True]\<rparr>)) + 3 \<le> (5::nat)"
    using sample_zones(1) expiriesAhead_same [of "monday\<lparr>faults := [False, True]\<rparr>" monday]
    by (simp_all add: request_def)
  have find1: "find (\<lambda>m. mission_id m = Suc 0) (missions mondayScreen) = Some foodMission"
    using monday_find by simp
  have tbl: "missionsTbl (monday\<lparr>faults := [False, True]\<rparr>) = [foodMission, burnMission]"
    "mission_id foodMission = Suc 0" "mission_id burnMission \<noteq> Suc 0" "target foodMission = 2"
    by (simp_all add: monday_def foodMission_def burnMission_def)
  have shown: "renderedProgress (foodMission\<lparr>progress := 5, completed := True\<rparr>) = 2"
    by (simp add: renderedProgress_def foodMission_def)
  show ?thesis
    using raw_progress_persisted [OF find1 h, of 5] h monday_find shown
    by (auto simp: tbl numeral_2_eq_2 simp del: loadData.simps)
qed

text \<open>
  Claim C10. A report for an id that no loaded mission has returns at once with the world
  (both tables and the pending request outcomes) and the screen unchanged, whatever the
  reload would do.
\<close>

theorem unknown_mission_noop:
  assumes "\<forall>m\<in>set (missions s). mission_id m \<noteq> missionId"
  shows "updateMissionProgress reload missionId newProgress w s = Some (w, s)"
proof -
  have "find (\<lambda>m. mission_id m = missionId) (missions s) = None"
    using assms by (simp add: find_None_iff)
  then show ?thesis
    by (simp add: updateMissionProgress_def)
qed

theorem unknown_mission_noop_witness:
  "7 \<notin> mission_id ` set (missions mondayScreen) \<and>
   updateMissionProgress (loadData 3) 7 2 monday mondayScreen = Some (monday, mondayScreen)"
  using unknown_mission_noop [of mondayScreen 7 "loadData 3" 2 monday]
  by (simp add: mondayScreen_def foodMission_def burnMission_def)

text \<open>
  Claim C9: a failed storage write is reported, nothing is retried, and no state changes.
  The code does this when the write of the mission row fails (first conjunct: an error
  alert, store and points untouched). It does not when the write of the user's points
  fails (second conjunct: the mission is stored as completed, the points stay at 5, the
  completion alert is shown and no error), nor when an insert of the generator fails
  (third conjunct: with the first insert failing, two daily missions are stored instead of
  three and no alert is shown).
\<close>

theorem write_failures:
  "updateMissionProgress (loadData 3) 1 2 (monday\<lparr>faults := [True]\<rparr>) mondayScreen =
     Some (monday, mondayScreen\<lparr>alerts := [UpdateProgressError]\<rparr>) \<and>
   updateMissionProgress (loadData 3) 1 2 (monday\<lparr>faults := [False, True]\<rparr>) mondayScreen =
     Some (monday\<lparr>missionsTbl := [foodMission\<lparr>progress := 2, completed := True\<rparr>, burnMission]\<rparr>,
           mondayScreen\<lparr>missions := [foodMission\<lparr>progress := 2, completed := True\<rparr>, burnMission],
                        alerts := [MissionCompleted 10]\<rparr>) \<and>
   map_option (\<lambda>(w, s). (map mission_id (ofType Daily w), alerts s, faults w))
     (loadData 4 (emptyStore\<lparr>faults := [False, False, False, True]\<rparr>) initialScreen) =
     Some ([1, 2], [], [])"
proof -
  let ?fields = "\<lambda>(w, s). (clock w, authUser w, users w, missionsTbl w, faults w, s)"
  let ?tbl = "[foodMission\<lparr>progress := 2, completed := True\<rparr>, burnMission]"
  have whole: "r = Some (v, t)"
    if "map_option ?fields r = Some (clock v, authUser v, users v, missionsTbl v, faults v, t)"
      and "\<And>w' s'. r = Some (w', s') \<Longrightarrow> zone w' = zone v"
    for r and v :: world and t :: screen
  proof -
    from that(1) have "r \<noteq> None"
      by auto
    then obtain w' s' where r: "r = Some (w', s')"
      by auto
    have "w' = v"
      using that(1) that(2) [OF r] by (intro world.equality) (simp_all add: r)
    then show ?thesis
      using that(1) by (simp add: r)
  qed
  have zone1: "zone w' = zone monday"
    if "updateMissionProgress (loadData 3) 1 2 (monday\<lparr>faults := fs\<rparr>) mondayScreen
          = Some (w', s')" for fs w' s'
    using updateMissionProgress_zone [OF that] by simp
  have a: "map_option ?fields
        (updateMissionProgress (loadData 3) 1 2 (monday\<lparr>faults := [True]\<rparr>) mondayScreen) =
      Some (clock monday, authUser monday, users monday, missionsTbl monday, faults monday,
            mondayScreen\<lparr>alerts := [UpdateProgressError]\<rparr>)"
    by code_simp
  have b: "map_option ?fields
        (updateMissionProgress (loadData 3) 1 2 (monday\<lparr>faults := [False, True]\<rparr>)
           mondayScreen) =
      Some (clock (monday\<lparr>missionsTbl := ?tbl\<rparr>), authUser (monday\<lparr>missionsTbl := ?tbl\<rparr>),
            users (monday\<lparr>missionsTbl := ?tbl\<rparr>), missionsTbl (monday\<lparr>missionsTbl := ?tbl\<rparr>),
            faults (monday\<lparr>missionsTbl := ?tbl\<rparr>),
            mondayScreen\<lparr>missions := ?tbl, alerts := [MissionCompleted 10]\<rparr>)"
    by code_simp
  have c: "map_option (\<lambda>(w, s). (map mission_id (ofType Daily w), alerts s, faults w))
        (loadData 4 (emptyStore\<lparr>faults := [False, False, False, True]\<rparr>) initialScreen) =
      Some ([1, 2], [], [])"
    by code_simp
  have first: "updateMissionProgress (loadData 3) 1 2 (monday\<lparr>faults := [True]\<rparr>) mondayScreen =
      Some (monday, mondayScreen\<lparr>alerts := [UpdateProgressError]\<rparr>)"
    by (rule whole [OF a]) (rule zone1)
  have second: "updateMissionProgress (loadData 3) 1 2 (monday\<lparr>faults := [False, True]\<rparr>)
        mondayScreen =
      Some (monday\<lparr>missionsTbl := ?tbl\<rparr>,
            mondayScreen\<lparr>missions := ?tbl, alerts := [MissionCompleted 10]\<rparr>)"
    by (rule whole [OF b]) (simp add: zone1)
  show ?thesis
    using first second c by blast
qed

end
